theory Spec2Isabelle
  imports Complex_Main "HOL-Library.List_Lexorder" "HOL-Library.AList" "HOL-Library.Log_Nat"
begin

section \<open>The annual-leave engine (annual\_engine.py)\<close>

text \<open>
  A shallow embedding of \<^verbatim>\<open>annual_engine.py\<close>: the four dataclasses are records, the
  dictionaries the functions return are records with one field per key, and every function
  keeps its name and the order of its branches.

  Values of Python types:
  \<^item> \<^verbatim>\<open>str\<close> is the list of its Unicode code points (so that equality, the lexicographic
    order of \<^verbatim>\<open>sorted\<close> and the character classes of \<^verbatim>\<open>strip\<close> and \<^verbatim>\<open>\d\<close> are those of
    Python); an ASCII literal of the source is written \<open>lit ''...''\<close>;
  \<^item> \<^verbatim>\<open>int\<close> is \<open>int\<close>;
  \<^item> \<^verbatim>\<open>float\<close> is the real number the float denotes. Comparisons of floats are exact, so
    they are the comparisons of the reals; the rounding of float arithmetic, overflow and
    the special values (NaN, infinities) are not modelled;
  \<^item> a value that is an \<^verbatim>\<open>int\<close> on some paths and a \<^verbatim>\<open>float\<close> on others is a \<open>pynum\<close>.
\<close>

subsection \<open>Python values\<close>

type_synonym pystr = "nat list"

definition lit :: "string \<Rightarrow> pystr" where
  "lit s = map of_char s"

datatype pynum = PInt int | PFloat real

fun num_val :: "pynum \<Rightarrow> real" where
  "num_val (PInt n) = of_int n"
| "num_val (PFloat x) = x"

text \<open>\<^verbatim>\<open>int(x)\<close> of a float truncates towards zero.\<close>

definition py_trunc :: "real \<Rightarrow> int" where
  "py_trunc x = (if 0 \<le> x then \<lfloor>x\<rfloor> else \<lceil>x\<rceil>)"

text \<open>
  An f-string is kept as the list of its parts: the literal text, and each value it
  formats together with the way it is formatted (an \<^verbatim>\<open>int\<close>, a number that may be an
  \<^verbatim>\<open>int\<close> or a \<^verbatim>\<open>float\<close>, a float with \<^verbatim>\<open>:.1f\<close>). The empty string is the empty list.
\<close>

datatype piece = Lit pystr | FInt int | FNum pynum | FFix1 real

type_synonym description = "piece list"

subsection \<open>Double precision\<close>

text \<open>
  Python's \<^verbatim>\<open>float\<close> is the IEEE 754 double. The functions of this subsection give its
  arithmetic: a finite double is the real number it denotes (the two zeros are one), \<open>fl\<close>
  rounds a real number to the nearest double, ties to the even significand, with the
  subnormal numbers below \<open>2 ^ - 1022\<close>, and a result of magnitude \<open>2 ^ 1024\<close> or more
  is an infinity. The exceptions are values.
\<close>

datatype error = ZeroDivisionError | OverflowError | ValueError

definition pow2 :: "int \<Rightarrow> real" where
  "pow2 e = (if 0 \<le> e then 2 ^ nat e else 1 / 2 ^ nat (- e))"

definition round_even :: "real \<Rightarrow> int" where
  "round_even y =
     (let f = \<lfloor>y\<rfloor>; d = y - of_int f
      in if d < 1 / 2 then f else if 1 / 2 < d then f + 1 else if even f then f else f + 1)"

definition binade :: "real \<Rightarrow> int" where
  "binade x =
     (if 1 \<le> \<bar>x\<bar> then bitlen \<lfloor>\<bar>x\<bar>\<rfloor> - 1 else - bitlen (\<lceil>1 / \<bar>x\<bar>\<rceil> - 1))"

definition quantum :: "real \<Rightarrow> real" where
  "quantum x = pow2 (max (binade x) (- 1022) - 52)"

definition fl :: "real \<Rightarrow> real" where
  "fl x = (if x = 0 then 0 else of_int (round_even (x / quantum x)) * quantum x)"

datatype pyfloat = Fin real | PInf | NInf | NaN

definition rnd :: "real \<Rightarrow> pyfloat" where
  "rnd x =
     (let y = fl x
      in if 2 ^ 1024 \<le> y then PInf else if y \<le> - (2 ^ 1024) then NInf else Fin y)"

definition bind :: "error + 'a \<Rightarrow> ('a \<Rightarrow> error + 'b) \<Rightarrow> error + 'b" where
  "bind r f = (case r of Inl e \<Rightarrow> Inl e | Inr v \<Rightarrow> f v)"

fun fneg :: "pyfloat \<Rightarrow> pyfloat" where
  "fneg (Fin a) = Fin (- a)"
| "fneg PInf = NInf"
| "fneg NInf = PInf"
| "fneg NaN = NaN"

fun fadd :: "pyfloat \<Rightarrow> pyfloat \<Rightarrow> pyfloat" where
  "fadd (Fin a) (Fin b) = rnd (a + b)"
| "fadd NaN y = NaN"
| "fadd x NaN = NaN"
| "fadd PInf NInf = NaN"
| "fadd NInf PInf = NaN"
| "fadd PInf y = PInf"
| "fadd NInf y = NInf"
| "fadd x PInf = PInf"
| "fadd x NInf = NInf"

definition fsub :: "pyfloat \<Rightarrow> pyfloat \<Rightarrow> pyfloat" where
  "fsub x y = fadd x (fneg y)"

definition inf_of_sign :: "bool \<Rightarrow> pyfloat" where
  "inf_of_sign positive = (if positive then PInf else NInf)"

fun fmul :: "pyfloat \<Rightarrow> pyfloat \<Rightarrow> pyfloat" where
  "fmul (Fin a) (Fin b) = rnd (a * b)"
| "fmul NaN y = NaN"
| "fmul x NaN = NaN"
| "fmul PInf (Fin b) = (if b = 0 then NaN else inf_of_sign (0 < b))"
| "fmul NInf (Fin b) = (if b = 0 then NaN else inf_of_sign (b < 0))"
| "fmul (Fin a) PInf = (if a = 0 then NaN else inf_of_sign (0 < a))"
| "fmul (Fin a) NInf = (if a = 0 then NaN else inf_of_sign (a < 0))"
| "fmul PInf PInf = PInf"
| "fmul NInf NInf = PInf"
| "fmul PInf NInf = NInf"
| "fmul NInf PInf = NInf"

text \<open>Division of C doubles, for a divisor that is not zero.\<close>

fun cdiv :: "pyfloat \<Rightarrow> pyfloat \<Rightarrow> pyfloat" where
  "cdiv (Fin a) (Fin b) = rnd (a / b)"
| "cdiv NaN y = NaN"
| "cdiv x NaN = NaN"
| "cdiv PInf (Fin b) = inf_of_sign (0 \<le> b)"
| "cdiv NInf (Fin b) = inf_of_sign (b < 0)"
| "cdiv (Fin a) PInf = Fin 0"
| "cdiv (Fin a) NInf = Fin 0"
| "cdiv x y = NaN"

definition fdiv :: "pyfloat \<Rightarrow> pyfloat \<Rightarrow> error + pyfloat" where
  "fdiv x y = (if y = Fin 0 then Inl ZeroDivisionError else Inr (cdiv x y))"

text \<open>Comparison of a float with an exact number: false for NaN.\<close>

fun f_lt :: "pyfloat \<Rightarrow> real \<Rightarrow> bool" where
  "f_lt (Fin a) c = (a < c)"
| "f_lt NInf c = True"
| "f_lt x c = False"

fun f_gt :: "pyfloat \<Rightarrow> real \<Rightarrow> bool" where
  "f_gt (Fin a) c = (c < a)"
| "f_gt PInf c = True"
| "f_gt x c = False"

fun f_le :: "pyfloat \<Rightarrow> real \<Rightarrow> bool" where
  "f_le (Fin a) c = (a \<le> c)"
| "f_le NInf c = True"
| "f_le x c = False"

datatype pyval = VInt int | VFloat pyfloat

definition float_of_int :: "int \<Rightarrow> error + pyfloat" where
  "float_of_int n =
     (let y = fl (of_int n) in if 2 ^ 1024 \<le> \<bar>y\<bar> then Inl OverflowError else Inr (Fin y))"

fun to_float :: "pyval \<Rightarrow> error + pyfloat" where
  "to_float (VInt n) = float_of_int n"
| "to_float (VFloat x) = Inr x"

fun int_of_float :: "pyfloat \<Rightarrow> error + int" where
  "int_of_float (Fin a) = Inr (py_trunc a)"
| "int_of_float NaN = Inl ValueError"
| "int_of_float x = Inl OverflowError"

fun math_floor :: "pyfloat \<Rightarrow> error + int" where
  "math_floor (Fin a) = Inr \<lfloor>a\<rfloor>"
| "math_floor NaN = Inl ValueError"
| "math_floor x = Inl OverflowError"

fun math_ceil :: "pyfloat \<Rightarrow> error + int" where
  "math_ceil (Fin a) = Inr \<lceil>a\<rceil>"
| "math_ceil NaN = Inl ValueError"
| "math_ceil x = Inl OverflowError"

fun to_int :: "pyval \<Rightarrow> error + int" where
  "to_int (VInt n) = Inr n"
| "to_int (VFloat x) = int_of_float x"

fun py_add :: "pyval \<Rightarrow> pyval \<Rightarrow> error + pyval" where
  "py_add (VInt a) (VInt b) = Inr (VInt (a + b))"
| "py_add x y = bind (to_float x) (\<lambda>u. bind (to_float y) (\<lambda>v. Inr (VFloat (fadd u v))))"

fun py_sub :: "pyval \<Rightarrow> pyval \<Rightarrow> error + pyval" where
  "py_sub (VInt a) (VInt b) = Inr (VInt (a - b))"
| "py_sub x y = bind (to_float x) (\<lambda>u. bind (to_float y) (\<lambda>v. Inr (VFloat (fsub u v))))"

fun py_mul :: "pyval \<Rightarrow> pyval \<Rightarrow> error + pyval" where
  "py_mul (VInt a) (VInt b) = Inr (VInt (a * b))"
| "py_mul x y = bind (to_float x) (\<lambda>u. bind (to_float y) (\<lambda>v. Inr (VFloat (fmul u v))))"

text \<open>\<^verbatim>\<open>x / y\<close> with a float on one side at least.\<close>

definition py_truediv :: "pyval \<Rightarrow> pyval \<Rightarrow> error + pyfloat" where
  "py_truediv x y = bind (to_float x) (\<lambda>u. bind (to_float y) (\<lambda>v. fdiv u v))"

text \<open>The C functions \<^verbatim>\<open>fmod\<close> and \<^verbatim>\<open>floor\<close>, and \<^verbatim>\<open>_float_div_mod\<close> of CPython.\<close>

fun c_fmod :: "pyfloat \<Rightarrow> pyfloat \<Rightarrow> pyfloat" where
  "c_fmod (Fin a) (Fin b) = Fin (a - b * of_int (py_trunc (a / b)))"
| "c_fmod (Fin a) PInf = Fin a"
| "c_fmod (Fin a) NInf = Fin a"
| "c_fmod x y = NaN"

fun c_floor :: "pyfloat \<Rightarrow> pyfloat" where
  "c_floor (Fin a) = Fin (of_int \<lfloor>a\<rfloor>)"
| "c_floor x = x"

definition float_floor_div :: "pyfloat \<Rightarrow> pyfloat \<Rightarrow> pyfloat" where
  "float_floor_div vx wx =
     (let m = c_fmod vx wx;
          d0 = cdiv (fsub vx m) wx;
          d = (if m \<noteq> Fin 0 \<and> (f_lt wx 0 \<noteq> f_lt m 0) then fsub d0 (Fin 1) else d0)
      in if d \<noteq> Fin 0 then
           (let floordiv = c_floor d
            in if f_gt (fsub d floordiv) 0.5 then fadd floordiv (Fin 1) else floordiv)
         else Fin 0)"

fun py_floordiv :: "pyval \<Rightarrow> pyval \<Rightarrow> error + pyval" where
  "py_floordiv (VInt a) (VInt b) = (if b = 0 then Inl ZeroDivisionError else Inr (VInt (a div b)))"
| "py_floordiv x y =
     bind (to_float x) (\<lambda>u. bind (to_float y) (\<lambda>v.
       if v = Fin 0 then Inl ZeroDivisionError else Inr (VFloat (float_floor_div u v))))"

text \<open>\<^verbatim>\<open>round(x, 1)\<close> of a float.\<close>

fun round1 :: "pyfloat \<Rightarrow> pyfloat" where
  "round1 (Fin a) = Fin (fl (of_int (round_even (a * 10)) / 10))"
| "round1 x = x"

subsection \<open>0. The data classes\<close>

record ServiceProfile =
  hire_date :: pystr
  base_date :: pystr
  service_years :: real
  full_years :: int
  attendance_rate :: real
  full_months :: int

record WageProfile =
  wage_type :: pystr
  wage_amount :: real
  wage_hours_per_day :: real
  monthly_work_days :: real

record RuleProfile =
  rule_id :: pystr
  rule_name :: pystr
  grant_type :: pystr
  first_year_max :: int
  default_days_after_1y :: int
  money_step :: int
  money_mode :: pystr

text \<open>\<^verbatim>\<open>WageProfile.daily_wage\<close> (field \<^verbatim>\<open>hours_per_day\<close> is \<open>wage_hours_per_day\<close> here).\<close>

definition daily_wage :: "WageProfile \<Rightarrow> real" where
  "daily_wage w =
     (if wage_type w = lit ''hourly'' then
        (if wage_amount w > 0 \<and> wage_hours_per_day w > 0
         then wage_amount w * wage_hours_per_day w else 0)
      else if wage_type w = lit ''daily'' then wage_amount w
      else if wage_type w = lit ''monthly'' then
        (if wage_amount w > 0 \<and> monthly_work_days w > 0
         then wage_amount w / monthly_work_days w else 0)
      else 0)"

subsection \<open>1. Records of the attendance list\<close>

text \<open>
  \<^verbatim>\<open>str.strip()\<close> removes the white space of Python (the characters for which
  \<^verbatim>\<open>str.isspace\<close> holds) from both ends.
\<close>

definition is_space :: "nat \<Rightarrow> bool" where
  "is_space c \<longleftrightarrow>
     (9 \<le> c \<and> c \<le> 13) \<or> (28 \<le> c \<and> c \<le> 32) \<or> c = 133 \<or> c = 160 \<or> c = 5760
     \<or> (8192 \<le> c \<and> c \<le> 8202) \<or> c = 8232 \<or> c = 8233 \<or> c = 8239 \<or> c = 8287
     \<or> c = 12288"

definition strip :: "pystr \<Rightarrow> pystr" where
  "strip s = rev (dropWhile is_space (rev (dropWhile is_space s)))"

text \<open>
  \<^verbatim>\<open>re.findall(r"\d+", txt)\<close>: the maximal runs of decimal digits, from left to right.
  In a \<^verbatim>\<open>str\<close> pattern \<^verbatim>\<open>\d\<close> matches every Unicode decimal digit, and \<^verbatim>\<open>int\<close> reads
  every one of them; which characters these are, and the digit each stands for, is a table
  of the interpreter (\<^verbatim>\<open>unicodedata.decimal\<close>). The table is the parameter \<open>dv\<close> of
  the functions that follow; \<open>ascii_decimal\<close> is its ASCII part.
\<close>

type_synonym decimal_table = "nat \<Rightarrow> nat option"

definition ascii_decimal :: decimal_table where
  "ascii_decimal c = (if 48 \<le> c \<and> c \<le> 57 then Some (c - 48) else None)"

fun digit_runs :: "decimal_table \<Rightarrow> pystr \<Rightarrow> pystr \<Rightarrow> pystr list" where
  "digit_runs dv cur [] = (if cur = [] then [] else [cur])"
| "digit_runs dv cur (c # cs) =
     (if dv c \<noteq> None then digit_runs dv (cur @ [c]) cs
      else (if cur = [] then [] else [cur]) @ digit_runs dv [] cs)"

definition findall_digits :: "decimal_table \<Rightarrow> pystr \<Rightarrow> pystr list" where
  "findall_digits dv txt = digit_runs dv [] txt"

text \<open>\<^verbatim>\<open>int(s)\<close> of a run of decimal digits (the length limit of recent interpreters on
  such conversions, which is configurable, is not modelled).\<close>

definition digit_of :: "decimal_table \<Rightarrow> nat \<Rightarrow> int" where
  "digit_of dv c = (case dv c of Some v \<Rightarrow> int v | None \<Rightarrow> 0)"

definition py_int :: "decimal_table \<Rightarrow> pystr \<Rightarrow> int" where
  "py_int dv s = foldl (\<lambda>a c. 10 * a + digit_of dv c) 0 s"

text \<open>\<^verbatim>\<open>x or y\<close> on numbers and on strings: \<^verbatim>\<open>y\<close> when \<^verbatim>\<open>x\<close> is zero or empty.\<close>

definition or_real :: "real \<Rightarrow> real \<Rightarrow> real" where
  "or_real x y = (if x = 0 then y else x)"

definition or_int :: "int \<Rightarrow> int \<Rightarrow> int" where
  "or_int x y = (if x = 0 then y else x)"

definition or_str :: "pystr \<Rightarrow> pystr \<Rightarrow> pystr" where
  "or_str x y = (if x = [] then y else x)"

record NiceRecord =
  leave_type :: pystr
  duration_raw :: pystr
  hours_per_day :: real

record ParsedDuration =
  days :: int
  hours :: int
  minutes :: int
  total_minutes :: real
  total_hours :: real

text \<open>The three branches on \<^verbatim>\<open>len(nums)\<close> that assign \<^verbatim>\<open>d\<close>, \<^verbatim>\<open>h\<close> and \<^verbatim>\<open>m\<close>.\<close>

fun d_h_m :: "int list \<Rightarrow> int \<times> int \<times> int" where
  "d_h_m (d # h # m # rest) = (d, h, m)"
| "d_h_m [d, h] = (d, h, 0)"
| "d_h_m [d] = (d, 0, 0)"
| "d_h_m [] = (0, 0, 0)"

definition parse_duration :: "decimal_table \<Rightarrow> NiceRecord \<Rightarrow> ParsedDuration" where
  "parse_duration dv self =
     (let txt = strip (duration_raw self)
      in if txt = [] then
           \<lparr>days = 0, hours = 0, minutes = 0, total_minutes = 0, total_hours = 0\<rparr>
         else
           (let nums = findall_digits dv txt;
                (d, h, m) = d_h_m (map (py_int dv) nums);
                hpd = or_real (hours_per_day self) 8;
                total_minutes = (of_int d * hpd + of_int h) * 60 + of_int m;
                total_hours = total_minutes / 60
            in \<lparr>days = d, hours = h, minutes = m, total_minutes = total_minutes,
                total_hours = total_hours\<rparr>))"

text \<open>
  \<^verbatim>\<open>summarize_nice_records\<close>. The dictionary \<^verbatim>\<open>by_type\<close> keeps its keys in the order of
  their insertion: it is an association list, a new key goes to its end. Its values are
  the records \<open>Group\<close>.
\<close>

record Group =
  g_leave_type :: pystr
  g_count :: int
  g_total_minutes :: real
  g_hours_per_day :: real

definition unspecified :: pystr where
  "unspecified = [48120, 51648, 51221]"

definition group_key :: "NiceRecord \<Rightarrow> pystr" where
  "group_key rec = or_str (strip (leave_type rec)) unspecified"

text \<open>One turn of the first loop.\<close>

definition add_record ::
  "decimal_table \<Rightarrow> (pystr \<times> Group) list \<Rightarrow> NiceRecord \<Rightarrow> (pystr \<times> Group) list" where
  "add_record dv by_type rec =
     (let parsed = parse_duration dv rec;
          key = group_key rec;
          by_type1 =
            (if map_of by_type key = None then
               AList.update key
                 \<lparr>g_leave_type = key, g_count = 0, g_total_minutes = 0,
                  g_hours_per_day = or_real (hours_per_day rec) 8\<rparr> by_type
             else by_type);
          by_type2 = AList.map_entry key (\<lambda>info. info\<lparr>g_count := g_count info + 1\<rparr>) by_type1
      in AList.map_entry key
           (\<lambda>info. info\<lparr>g_total_minutes := g_total_minutes info + total_minutes parsed\<rparr>)
           by_type2)"

definition collect :: "decimal_table \<Rightarrow> NiceRecord list \<Rightarrow> (pystr \<times> Group) list" where
  "collect dv records = foldl (add_record dv) [] records"

text \<open>
  The second loop, over the items sorted by key. A row keeps \<^verbatim>\<open>leave_type\<close>, \<^verbatim>\<open>count\<close> and
  the text \<^verbatim>\<open>sum_d_h_m\<close>. The keys \<^verbatim>\<open>sum_hours_decimal\<close> and \<^verbatim>\<open>converted_days_hours\<close> are
  left out: they are made with \<^verbatim>\<open>round(_, 1)\<close>, whose result depends on the binary
  representation of the float, and their computation raises nothing (the divisor
  \<^verbatim>\<open>hpd\<close> is not zero). The division by \<^verbatim>\<open>int(hpd * 60)\<close> raises when that integer is 0.
\<close>

record Row =
  row_leave_type :: pystr
  row_count :: int
  row_sum_d_h_m :: description

definition make_row :: "pystr \<Rightarrow> Group \<Rightarrow> error + Row" where
  "make_row key info =
     (let total_minutes = g_total_minutes info;
          hpd = g_hours_per_day info
      in if py_trunc (hpd * 60) = 0 then Inl ZeroDivisionError
         else
           (let day_from_min = of_int \<lfloor>total_minutes / of_int (py_trunc (hpd * 60))\<rfloor>;
                remain_min = total_minutes - day_from_min * hpd * 60;
                hour_from_min = of_int \<lfloor>remain_min / 60\<rfloor>;
                minute = remain_min - hour_from_min * 60
            in Inr \<lparr>row_leave_type = key, row_count = g_count info,
                    row_sum_d_h_m =
                      [FInt (py_trunc day_from_min), Lit [51068, 32],
                       FInt (py_trunc hour_from_min), Lit [49884, 44036, 32],
                       FInt (py_trunc minute), Lit [48516]]\<rparr>))"

fun make_rows :: "(pystr \<times> Group) list \<Rightarrow> error + Row list" where
  "make_rows [] = Inr []"
| "make_rows ((key, info) # items) =
     (case make_row key info of
        Inl e \<Rightarrow> Inl e
      | Inr row \<Rightarrow> (case make_rows items of Inl e \<Rightarrow> Inl e | Inr rows \<Rightarrow> Inr (row # rows)))"

definition summarize_nice_records :: "decimal_table \<Rightarrow> NiceRecord list \<Rightarrow> error + Row list" where
  "summarize_nice_records dv records = make_rows (sort_key fst (collect dv records))"

subsection \<open>2. Suggested annual-leave days\<close>

text \<open>The rationale texts of \<^verbatim>\<open>suggest_annual_days\<close>, one definition per f-string.\<close>

definition desc_law_first_year :: "int \<Rightarrow> pynum \<Rightarrow> int \<Rightarrow> description" where
  "desc_law_first_year months suggested cap =
     [Lit [48277, 51221, 32, 44592, 48376, 54805, 58, 32, 49, 45380, 32, 48120, 47564, 44,
        32, 50900, 32, 44060, 44540, 32],
      FInt months,
      Lit [44060, 50900, 32, 8594, 32],
      FNum suggested,
      Lit [51068, 32, 40, 52572, 45824, 32],
      FInt cap,
      Lit [51068, 32, 50696, 49884, 41]]"

definition desc_law_low_rate :: "real \<Rightarrow> int \<Rightarrow> pynum \<Rightarrow> description" where
  "desc_law_low_rate rate months suggested =
     [Lit [48277, 51221, 32, 44592, 48376, 54805, 58, 32, 52636, 44540, 50984, 32],
      FFix1 rate,
      Lit [37, 32, 40, 56, 48, 37, 32, 48120, 47564, 41, 32, 8594, 32, 50900, 32, 44060,
        44540, 32],
      FInt months,
      Lit [44060, 50900, 32, 61, 32],
      FNum suggested,
      Lit [51068]]"

definition desc_law_accrual :: "int \<Rightarrow> real \<Rightarrow> int \<Rightarrow> pynum \<Rightarrow> description" where
  "desc_law_accrual years rate extra suggested =
     [Lit [48277, 51221, 32, 44592, 48376, 54805, 58, 32, 44540, 49549, 32],
      FInt years,
      Lit [45380, 32, 47, 32, 52636, 44540, 50984, 32],
      FFix1 rate,
      Lit [37, 32, 8594, 32, 44592, 48376, 32, 49, 53, 51068, 32, 43, 32, 44032, 49328, 32],
      FInt extra,
      Lit [51068, 32, 61, 32],
      FNum suggested,
      Lit [51068, 32, 40, 50696, 49884, 41]]"

definition desc_cba_first_year :: "int \<Rightarrow> pynum \<Rightarrow> int \<Rightarrow> description" where
  "desc_cba_first_year months suggested cap =
     [Lit [44053, 50896, 32, 67, 66, 65, 32, 49368, 54540, 58, 32, 49, 45380, 32, 48120,
        47564, 44, 32, 50900, 32, 44060, 44540, 32],
      FInt months,
      Lit [44060, 50900, 32, 8594, 32],
      FNum suggested,
      Lit [51068, 32, 40, 52572, 45824, 32],
      FInt cap,
      Lit [51068, 32, 50696, 49884, 41]]"

definition desc_cba_flat :: "int \<Rightarrow> real \<Rightarrow> pynum \<Rightarrow> description" where
  "desc_cba_flat years rate suggested =
     [Lit [44053, 50896, 32, 67, 66, 65, 32, 49368, 54540, 58, 32, 44540, 49549, 32],
      FInt years,
      Lit [45380, 32, 47, 32, 52636, 44540, 50984, 32],
      FFix1 rate,
      Lit [37, 32, 8594, 32],
      FNum suggested,
      Lit [51068, 32, 40, 103, 114, 97, 110, 116, 95, 114, 117, 108, 101, 115, 46, 100, 101,
        102, 97, 117, 108, 116, 95, 100, 97, 121, 115, 95, 97, 102, 116, 101, 114, 95, 49,
        121, 32, 50696, 49884, 32, 44050, 41]]"

definition desc_cba_low_rate :: "real \<Rightarrow> int \<Rightarrow> pynum \<Rightarrow> description" where
  "desc_cba_low_rate rate months suggested =
     [Lit [44053, 50896, 32, 67, 66, 65, 32, 49368, 54540, 58, 32, 52636, 44540, 50984, 32],
      FFix1 rate,
      Lit [37, 32, 40, 56, 48, 37, 32, 48120, 47564, 41, 32, 8594, 32, 50900, 32, 44060,
        44540, 32],
      FInt months,
      Lit [44060, 50900, 32, 61, 32],
      FNum suggested,
      Lit [51068]]"

definition desc_external_days :: "description" where
  "desc_external_days =
     [Lit [53685, 49345, 51076, 44552, 32, 51648, 52840, 32, 48152, 50689, 54805, 58, 32,
        50672, 52264, 51068, 49688, 45716, 32, 45796, 47480, 32, 47784, 46280, 50640, 49436,
        32, 44228, 49328, 54620, 32, 44050, 51012, 32, 44536, 45824, 47196, 32, 50416, 44256,
        44, 32, 51060, 32, 47784, 46280, 50640, 49436, 45716, 32, 49688, 45817, 47564, 32,
        44228, 49328, 54633, 45768, 45796, 46]]"

definition desc_manual_only :: "description" where
  "desc_manual_only =
     [Lit [52964, 49828, 53568, 58, 32, 48512, 50668, 32, 50672, 52264, 51068, 49688, 45716,
        32, 49324, 50857, 51088, 44032, 32, 51649, 51217, 32, 51077, 47141, 54644, 50556, 32,
        54633, 45768, 45796, 46]]"

text \<open>
  The dictionary \<^verbatim>\<open>suggest_annual_days\<close> returns. \<^verbatim>\<open>suggested_days\<close> is \<^verbatim>\<open>None\<close>, an
  \<^verbatim>\<open>int\<close> or a \<^verbatim>\<open>float\<close>, as the branch taken leaves it.
\<close>

record Suggestion =
  suggested_days :: "pynum option"
  description :: description

definition suggest_annual_days :: "RuleProfile \<Rightarrow> ServiceProfile \<Rightarrow> Suggestion" where
  "suggest_annual_days rule svc =
     (let full_years = full_years svc;
          rate = attendance_rate svc;
          full_months = full_months svc
      in
      if grant_type rule = lit ''law_basic'' then
        (if full_years < 1 then
           (let suggested = PInt (min full_months (first_year_max rule))
            in \<lparr>suggested_days = Some suggested,
                description = desc_law_first_year full_months suggested (first_year_max rule)\<rparr>)
         else if rate < 80 then
           (let suggested = PFloat (of_int full_months)
            in \<lparr>suggested_days = Some suggested,
                description = desc_law_low_rate rate full_months suggested\<rparr>)
         else
           (let extra = max 0 (min 10 ((full_years - 1) div 2));
                suggested = PInt (15 + extra)
            in \<lparr>suggested_days = Some suggested,
                description = desc_law_accrual full_years rate extra suggested\<rparr>))
      else if grant_type rule = lit ''gw_cba_school''
            \<or> grant_type rule = lit ''gw_cba_institute'' then
        (if full_years < 1 then
           (let suggested = PFloat (of_int (min full_months (first_year_max rule)))
            in \<lparr>suggested_days = Some suggested,
                description = desc_cba_first_year full_months suggested (first_year_max rule)\<rparr>)
         else if rate \<ge> 80 then
           (let suggested = PFloat (of_int (default_days_after_1y rule))
            in \<lparr>suggested_days = Some suggested,
                description = desc_cba_flat full_years rate suggested\<rparr>)
         else
           (let suggested = PFloat (of_int full_months)
            in \<lparr>suggested_days = Some suggested,
                description = desc_cba_low_rate rate full_months suggested\<rparr>))
      else if grant_type rule = lit ''external_days'' then
        \<lparr>suggested_days = None, description = desc_external_days\<rparr>
      else if grant_type rule = lit ''manual_only'' then
        \<lparr>suggested_days = None, description = desc_manual_only\<rparr>
      else
        \<lparr>suggested_days = Some (PFloat 0), description = []\<rparr>)"

subsection \<open>3. Payout for unused leave\<close>

text \<open>\<^verbatim>\<open>round_money\<close>; \<^verbatim>\<open>step\<close> is an \<^verbatim>\<open>int\<close>, as \<^verbatim>\<open>RuleProfile.money_step\<close> is.\<close>

definition round_money :: "real \<Rightarrow> int \<Rightarrow> pystr \<Rightarrow> real" where
  "round_money amount step mode =
     (if amount \<le> 0 then 0
      else
        (let step = (if step < 1 then 1 else step);
             base = amount / of_int step
         in if mode = lit ''round'' then
              (let tmp = base + 1 / 10 ^ 8;
                   base_rounded = py_trunc (tmp + 0.5)
               in of_int (base_rounded * step))
            else if mode = lit ''ceil'' then of_int (\<lceil>base\<rceil> * step)
            else of_int (\<lfloor>base\<rfloor> * step)))"

text \<open>
  \<open>round_money\<close> above takes the quotient and the product exactly. \<open>round_money_f64\<close>
  is the same function, line by line, with the arithmetic of doubles: the division rounds,
  \<^verbatim>\<open>floor\<close>, \<^verbatim>\<open>ceil\<close> and \<^verbatim>\<open>int\<close> raise on an infinity or a NaN, and \<^verbatim>\<open>float(result)\<close>
  rounds the integer and raises when it is too large.
\<close>

definition round_money_f64 :: "pyfloat \<Rightarrow> int \<Rightarrow> pystr \<Rightarrow> error + pyfloat" where
  "round_money_f64 amount step mode =
     (if f_le amount 0 then Inr (Fin 0)
      else
        (let step = (if step < 1 then 1 else step)
         in bind (py_truediv (VFloat amount) (VInt step)) (\<lambda>base.
              if mode = lit ''round'' then
                (let tmp = fadd base (rnd (1 / 10 ^ 8))
                 in bind (int_of_float (fadd tmp (Fin 0.5))) (\<lambda>base_rounded.
                      float_of_int (base_rounded * step)))
              else if mode = lit ''ceil'' then
                bind (math_ceil base) (\<lambda>c. float_of_int (c * step))
              else
                bind (math_floor base) (\<lambda>f. float_of_int (f * step)))))"

record PayoutResult =
  granted_days :: real
  used_days :: real
  unused_days :: real
  daily_wage_raw :: real
  payout_raw :: real
  payout_rounded :: real
  rounding_step :: int
  rounding_mode :: pystr

definition calc_unused_leave_payout ::
  "RuleProfile \<Rightarrow> real \<Rightarrow> real \<Rightarrow> WageProfile \<Rightarrow> PayoutResult" where
  "calc_unused_leave_payout rule granted used wage_profile =
     (let granted = (if granted < 0 then 0 else granted);
          used = (if used < 0 then 0 else used);
          unused = granted - used;
          unused = (if unused < 0 then 0 else unused);
          daily = daily_wage wage_profile;
          raw = unused * daily;
          step = or_int (money_step rule) 10;
          mode = or_str (money_mode rule) (lit ''floor'');
          rounded = round_money raw step mode
      in \<lparr>granted_days = granted, used_days = used, unused_days = unused,
          daily_wage_raw = daily, payout_raw = raw, payout_rounded = rounded,
          rounding_step = step, rounding_mode = mode\<rparr>)"

subsection \<open>4. The whole pipeline\<close>

text \<open>
  The two dictionaries \<^verbatim>\<open>full_pipeline\<close> reads with \<^verbatim>\<open>.get(key, default)\<close> are records of
  optional fields: a key may be missing, a date or a wage type is a string, and a value
  that goes through \<^verbatim>\<open>int()\<close> or \<^verbatim>\<open>float()\<close> is a number (an \<^verbatim>\<open>int\<close> or a \<^verbatim>\<open>float\<close>).
\<close>

record service_dict =
  sd_hire_date :: "pystr option"
  sd_base_date :: "pystr option"
  sd_service_years :: "pynum option"
  sd_full_years :: "pynum option"
  sd_attendance_rate :: "pynum option"
  sd_full_months :: "pynum option"

record wage_dict =
  wd_wage_type :: "pystr option"
  wd_wage_amount :: "pynum option"
  wd_hours_per_day :: "pynum option"
  wd_monthly_work_days :: "pynum option"

definition get :: "'a option \<Rightarrow> 'a \<Rightarrow> 'a" where
  "get v dflt = (case v of Some x \<Rightarrow> x | None \<Rightarrow> dflt)"

fun int_of :: "pynum \<Rightarrow> int" where
  "int_of (PInt n) = n"
| "int_of (PFloat x) = py_trunc x"

definition float_of :: "pynum \<Rightarrow> real" where
  "float_of v = num_val v"

definition new_rule :: "pystr \<Rightarrow> pystr \<Rightarrow> pystr \<Rightarrow> RuleProfile" where
  "new_rule i n g =
     \<lparr>rule_id = i, rule_name = n, grant_type = g, first_year_max = 11,
      default_days_after_1y = 26, money_step = 10, money_mode = lit ''floor''\<rparr>"

definition rule_map :: "(pystr \<times> RuleProfile) list" where
  "rule_map =
     [(lit ''law_basic'',
         new_rule (lit ''law_basic'') [48277, 51221, 32, 44592, 48376, 54805] (lit ''law_basic'')),
      (lit ''gw_school_cba'',
         new_rule (lit ''gw_school_cba'')
           [54617, 44368, 44540, 47924, 51088, 32, 67, 66, 65, 32, 50696, 49884]
           (lit ''gw_cba_school'')),
      (lit ''gw_institute_cba'',
         new_rule (lit ''gw_institute_cba'')
           [44592, 44288, 44540, 47924, 51088, 32, 67, 66, 65, 32, 50696, 49884]
           (lit ''gw_cba_institute'')),
      (lit ''gw_wage_guideline'',
         new_rule (lit ''gw_wage_guideline'')
           [53685, 49345, 51076, 44552, 32, 51648, 52840, 54805] (lit ''external_days'')),
      (lit ''custom'',
         (new_rule (lit ''custom'') [52964, 49828, 53568] (lit ''manual_only''))
           \<lparr>money_step := 10, money_mode := lit ''floor''\<rparr>)]"

record PipelineResult =
  res_rule :: RuleProfile
  res_service :: ServiceProfile
  res_wage :: WageProfile
  res_daily_wage :: real
  res_suggestion :: Suggestion
  res_payout :: PayoutResult

definition full_pipeline ::
  "pystr \<Rightarrow> service_dict \<Rightarrow> wage_dict \<Rightarrow> real \<Rightarrow> real \<Rightarrow> PipelineResult" where
  "full_pipeline rid sd wd granted used =
     (let rule = get (map_of rule_map rid)
                   (new_rule (lit ''law_basic'') [48277, 51221, 32, 44592, 48376, 54805]
                      (lit ''law_basic''));
          svc = \<lparr>hire_date = get (sd_hire_date sd) [],
                 base_date = get (sd_base_date sd) [],
                 service_years = float_of (get (sd_service_years sd) (PFloat 0)),
                 full_years = int_of (get (sd_full_years sd) (PInt 0)),
                 attendance_rate = float_of (get (sd_attendance_rate sd) (PFloat 0)),
                 full_months = int_of (get (sd_full_months sd) (PInt 0))\<rparr>;
          wage = \<lparr>wage_type = get (wd_wage_type wd) (lit ''hourly''),
                  wage_amount = float_of (get (wd_wage_amount wd) (PFloat 0)),
                  wage_hours_per_day = float_of (get (wd_hours_per_day wd) (PFloat 0)),
                  monthly_work_days = float_of (get (wd_monthly_work_days wd) (PFloat 0))\<rparr>;
          suggestion = suggest_annual_days rule svc;
          payout = calc_unused_leave_payout rule granted used wage
      in \<lparr>res_rule = rule, res_service = svc, res_wage = wage,
          res_daily_wage = daily_wage wage, res_suggestion = suggestion,
          res_payout = payout\<rparr>)"

subsection \<open>Sample inputs\<close>

definition rule_of :: "string \<Rightarrow> int \<Rightarrow> int \<Rightarrow> RuleProfile" where
  "rule_of g cap dflt =
     \<lparr>rule_id = [], rule_name = [], grant_type = lit g, first_year_max = cap,
      default_days_after_1y = dflt, money_step = 10, money_mode = lit ''floor''\<rparr>"

definition service_of :: "int \<Rightarrow> int \<Rightarrow> real \<Rightarrow> ServiceProfile" where
  "service_of years months rate =
     \<lparr>hire_date = [], base_date = [], service_years = 0, full_years = years,
      attendance_rate = rate, full_months = months\<rparr>"

definition wage_of :: "string \<Rightarrow> real \<Rightarrow> real \<Rightarrow> real \<Rightarrow> WageProfile" where
  "wage_of t amount hpd mwd =
     \<lparr>wage_type = lit t, wage_amount = amount, wage_hours_per_day = hpd,
      monthly_work_days = mwd\<rparr>"

definition rule_with_step :: "int \<Rightarrow> RuleProfile" where
  "rule_with_step step = (rule_of ''law_basic'' 11 26)\<lparr>money_step := step\<rparr>"

definition sample_service :: service_dict where
  "sample_service =
     \<lparr>sd_hire_date = None, sd_base_date = None, sd_service_years = None,
      sd_full_years = Some (PInt 1), sd_attendance_rate = Some (PInt 85),
      sd_full_months = Some (PInt 12)\<rparr>"

definition sample_wage :: wage_dict where
  "sample_wage =
     \<lparr>wd_wage_type = Some (lit ''monthly''), wd_wage_amount = Some (PInt 2000000),
      wd_hours_per_day = None, wd_monthly_work_days = Some (PInt 22)\<rparr>"

definition nice :: "string \<Rightarrow> string \<Rightarrow> real \<Rightarrow> NiceRecord" where
  "nice t raw hpd = \<lparr>leave_type = lit t, duration_raw = lit raw, hours_per_day = hpd\<rparr>"

definition sample_records :: "NiceRecord list" where
  "sample_records =
     [nice ''sick'' ''0d 6h 30m'' 8, nice ''annual'' ''1d'' 8, nice '' sick '' ''2h'' 8,
      nice '' '' ''30m'' 8]"

definition sample_rows :: "Row list" where
  "sample_rows =
     [\<lparr>row_leave_type = lit ''annual'', row_count = 1,
       row_sum_d_h_m = [FInt 1, Lit [51068, 32], FInt 0, Lit [49884, 44036, 32], FInt 0, Lit [48516]]\<rparr>,
      \<lparr>row_leave_type = lit ''sick'', row_count = 2,
       row_sum_d_h_m = [FInt 2, Lit [51068, 32], FInt 6, Lit [49884, 44036, 32], FInt 30, Lit [48516]]\<rparr>,
      \<lparr>row_leave_type = unspecified, row_count = 1,
       row_sum_d_h_m = [FInt 30, Lit [51068, 32], FInt 0, Lit [49884, 44036, 32], FInt 0, Lit [48516]]\<rparr>]"

text \<open>The minutes accumulated in the groups of \<^verbatim>\<open>by_type\<close>, summed over the groups.\<close>

definition minutes_of :: "(pystr \<times> Group) list \<Rightarrow> real" where
  "minutes_of by_type = (\<Sum>(key, info) \<leftarrow> by_type. g_total_minutes info)"

section \<open>Properties\<close>

subsection \<open>String literals\<close>

lemma lit_eq_iff [simp]: "lit s = lit t \<longleftrightarrow> s = t"
  unfolding lit_def using inj_of_char [where ?'a = nat] by (simp add: inj_map_eq_map)

lemma lit_eq_Nil_iff [simp]: "lit s = [] \<longleftrightarrow> s = []" "[] = lit s \<longleftrightarrow> s = []"
  by (auto simp add: lit_def)

subsection \<open>Parsing a duration\<close>

text \<open>
  \<open>findall_digits\<close> returns the maximal runs of digits from left to right: a character
  that is no digit is skipped, and a digit starts the run of all the digits that follow it.
\<close>

lemma digit_runs_nondigits:
  "\<forall>c \<in> set t. dv c = None \<Longrightarrow> digit_runs dv cur t = (if cur = [] then [] else [cur])"
  by (induction t arbitrary: cur) auto

lemma digit_runs_append_nondigits:
  "\<forall>c \<in> set t. dv c = None \<Longrightarrow> digit_runs dv cur (s @ t) = digit_runs dv cur s"
  by (induction s arbitrary: cur) (auto simp add: digit_runs_nondigits)

lemma digit_runs_dropWhile:
  "(\<And>c. P c \<Longrightarrow> dv c = None) \<Longrightarrow> digit_runs dv [] (dropWhile P s) = digit_runs dv [] s"
  by (induction s) auto

lemma digit_runs_split:
  "digit_runs dv cur cs =
     (if cur @ takeWhile (\<lambda>c. dv c \<noteq> None) cs = [] then []
      else [cur @ takeWhile (\<lambda>c. dv c \<noteq> None) cs])
     @ digit_runs dv [] (dropWhile (\<lambda>c. dv c \<noteq> None) cs)"
proof (induction cs arbitrary: cur)
  case Nil
  then show ?case by simp
next
  case (Cons c cs)
  show ?case
  proof (cases "dv c = None")
    case True
    then show ?thesis by simp
  next
    case False
    then show ?thesis using Cons.IH [of "cur @ [c]"] by simp
  qed
qed

lemma findall_digits_Nil: "findall_digits dv [] = []"
  by (simp add: findall_digits_def)

lemma findall_digits_skip: "dv c = None \<Longrightarrow> findall_digits dv (c # cs) = findall_digits dv cs"
  by (simp add: findall_digits_def)

lemma findall_digits_run:
  "dv c \<noteq> None \<Longrightarrow> findall_digits dv (c # cs) =
     (c # takeWhile (\<lambda>c. dv c \<noteq> None) cs) # findall_digits dv (dropWhile (\<lambda>c. dv c \<noteq> None) cs)"
  using digit_runs_split [of dv "[c]" cs] by (simp add: findall_digits_def)

text \<open>White space is no digit, so \<^verbatim>\<open>strip\<close> keeps the runs of digits.\<close>

lemma rev_dropWhile_takeWhile:
  "xs = rev (dropWhile P (rev xs)) @ rev (takeWhile P (rev xs))"
proof -
  have "rev (rev xs) = rev (takeWhile P (rev xs) @ dropWhile P (rev xs))"
    by (simp only: takeWhile_dropWhile_id)
  then show ?thesis
    by (simp only: rev_append rev_rev_ident)
qed

lemma strip_append:
  "dropWhile is_space s = strip s @ rev (takeWhile is_space (rev (dropWhile is_space s)))"
  unfolding strip_def by (rule rev_dropWhile_takeWhile)

lemma findall_digits_strip:
  assumes "\<And>c. is_space c \<Longrightarrow> dv c = None"
  shows "findall_digits dv (strip s) = findall_digits dv s"
proof -
  let ?t = "rev (takeWhile is_space (rev (dropWhile is_space s)))"
  have "\<forall>c \<in> set ?t. dv c = None"
    using assms by (auto dest: set_takeWhileD)
  then have "digit_runs dv [] (strip s @ ?t) = digit_runs dv [] (strip s)"
    by (rule digit_runs_append_nondigits)
  then have "digit_runs dv [] (dropWhile is_space s) = digit_runs dv [] (strip s)"
    using strip_append [of s] by simp
  then show ?thesis
    using digit_runs_dropWhile [of is_space dv s] assms by (simp add: findall_digits_def)
qed

lemma ascii_space_not_decimal: "is_space c \<Longrightarrow> ascii_decimal c = None"
  by (auto simp add: is_space_def ascii_decimal_def)

lemma parse_duration_fields:
  "(days (parse_duration dv r), hours (parse_duration dv r), minutes (parse_duration dv r))
     = d_h_m (map (py_int dv) (findall_digits dv (strip (duration_raw r))))
   \<and> total_minutes (parse_duration dv r)
     = (of_int (days (parse_duration dv r)) * or_real (hours_per_day r) 8
          + of_int (hours (parse_duration dv r))) * 60
        + of_int (minutes (parse_duration dv r))"
  by (simp add: parse_duration_def Let_def findall_digits_Nil split: prod.splits)

text \<open>
  C6. For every duration string, \<^verbatim>\<open>parse_duration\<close> takes the runs of decimal digits from
  left to right and returns \<^verbatim>\<open>total_minutes = (days * hpd + hours) * 60 + minutes\<close>, where
  three or more runs give days, hours and minutes from the first three, exactly two give
  days and hours with 0 minutes, exactly one gives the days alone, and no run, or an empty
  or blank string, gives \<^verbatim>\<open>total_minutes = 0\<close>. Here \<^verbatim>\<open>hpd\<close> is the divisor the function
  uses, \<^verbatim>\<open>self.hours_per_day or 8\<close>. The hypothesis is a fact of the table of Python: no
  white space is a decimal digit.
\<close>

theorem parse_duration_total_minutes:
  assumes "\<And>c. is_space c \<Longrightarrow> dv c = None"
  shows "total_minutes (parse_duration dv r) =
      (case map (py_int dv) (findall_digits dv (duration_raw r)) of
         d # h # m # rest \<Rightarrow> (of_int d * or_real (hours_per_day r) 8 + of_int h) * 60 + of_int m
       | [d, h] \<Rightarrow> (of_int d * or_real (hours_per_day r) 8 + of_int h) * 60 + 0
       | [d] \<Rightarrow> (of_int d * or_real (hours_per_day r) 8 + 0) * 60 + 0
       | [] \<Rightarrow> 0)
    \<and> (strip (duration_raw r) = [] \<longrightarrow> total_minutes (parse_duration dv r) = 0)"
proof -
  have "findall_digits dv (strip (duration_raw r)) = findall_digits dv (duration_raw r)"
    using assms by (rule findall_digits_strip)
  then show ?thesis
    using parse_duration_fields [of dv r]
    by (auto simp add: parse_duration_def split: list.splits)
qed

lemmas parse_eval = parse_duration_def nice_def strip_def lit_def is_space_def
  findall_digits_def ascii_decimal_def py_int_def digit_of_def or_real_def

theorem parse_duration_total_minutes_witness:
  "total_minutes (parse_duration ascii_decimal (nice ''sick'' ''0d 6h 30m'' 8)) = 390 \<and>
   total_minutes (parse_duration ascii_decimal (nice ''sick'' '' 1d 2h 3m 4s '' 8)) = 603 \<and>
   total_minutes (parse_duration ascii_decimal (nice ''sick'' ''2d 3h'' 7.5)) = 1080 \<and>
   total_minutes (parse_duration ascii_decimal (nice ''sick'' ''12'' 8)) = 5760 \<and>
   total_minutes (parse_duration ascii_decimal (nice ''sick'' ''half a day'' 8)) = 0 \<and>
   strip (duration_raw (nice ''sick'' ''   '' 8)) = [] \<and>
   total_minutes (parse_duration ascii_decimal (nice ''sick'' ''   '' 8)) = 0"
  using parse_duration_total_minutes [of ascii_decimal "nice ''sick'' ''0d 6h 30m'' 8", OF ascii_space_not_decimal]
    parse_duration_total_minutes [of ascii_decimal "nice ''sick'' '' 1d 2h 3m 4s '' 8", OF ascii_space_not_decimal]
    parse_duration_total_minutes [of ascii_decimal "nice ''sick'' ''2d 3h'' 7.5", OF ascii_space_not_decimal]
    parse_duration_total_minutes [of ascii_decimal "nice ''sick'' ''12'' 8", OF ascii_space_not_decimal]
    parse_duration_total_minutes [of ascii_decimal "nice ''sick'' ''half a day'' 8", OF ascii_space_not_decimal]
    parse_duration_total_minutes [of ascii_decimal "nice ''sick'' ''   '' 8", OF ascii_space_not_decimal]
  by (simp add: parse_eval)

text \<open>
  C8, as stated, says that a record whose \<^verbatim>\<open>hours_per_day\<close> is zero or negative is parsed
  with the divisor 8. The function takes \<^verbatim>\<open>self.hours_per_day or 8\<close>, which replaces zero
  only: with \<^verbatim>\<open>hours_per_day = -1\<close> one day is -60 minutes, not the 480 of the divisor 8.
\<close>

theorem parse_duration_negative_hours_counterexample:
  "hours_per_day (nice ''sick'' ''1d'' (-1)) \<le> 0 \<and>
   total_minutes (parse_duration ascii_decimal (nice ''sick'' ''1d'' (-1))) = -60 \<and>
   total_minutes (parse_duration ascii_decimal (nice ''sick'' ''1d'' 8)) = 480"
  by (simp add: parse_eval)

lemma parse_duration_zero_hours:
  "hours_per_day r = 0 \<Longrightarrow> parse_duration dv r = parse_duration dv (r\<lparr>hours_per_day := 8\<rparr>)"
  by (simp add: parse_duration_def or_real_def Let_def)

text \<open>
  C8, amended. For every record whose \<^verbatim>\<open>hours_per_day\<close> is zero, \<^verbatim>\<open>parse_duration\<close> uses 8
  as the hours of a working day; for every record whose \<^verbatim>\<open>hours_per_day\<close> is negative it
  uses that negative value as it is.
\<close>

theorem parse_duration_divisor:
  "(hours_per_day r = 0 \<longrightarrow>
      parse_duration dv r = parse_duration dv (r\<lparr>hours_per_day := 8\<rparr>))
   \<and> (hours_per_day r < 0 \<longrightarrow>
      total_minutes (parse_duration dv r)
        = (of_int (days (parse_duration dv r)) * hours_per_day r
             + of_int (hours (parse_duration dv r))) * 60
          + of_int (minutes (parse_duration dv r)))"
proof (intro conjI impI)
  assume "hours_per_day r = 0"
  then show "parse_duration dv r = parse_duration dv (r\<lparr>hours_per_day := 8\<rparr>)"
    by (rule parse_duration_zero_hours)
next
  assume "hours_per_day r < 0"
  then have "or_real (hours_per_day r) 8 = hours_per_day r"
    by (simp add: or_real_def)
  then show "total_minutes (parse_duration dv r)
        = (of_int (days (parse_duration dv r)) * hours_per_day r
             + of_int (hours (parse_duration dv r))) * 60
          + of_int (minutes (parse_duration dv r))"
    using parse_duration_fields [of dv r] by simp
qed

theorem parse_duration_divisor_witness:
  "hours_per_day (nice ''sick'' ''1d 2h'' 0) = 0 \<and>
   parse_duration ascii_decimal (nice ''sick'' ''1d 2h'' 0)
     = parse_duration ascii_decimal (nice ''sick'' ''1d 2h'' 8) \<and>
   total_minutes (parse_duration ascii_decimal (nice ''sick'' ''1d 2h'' 0)) = 600 \<and>
   hours_per_day (nice ''sick'' ''1d 2h'' (-1)) < 0 \<and>
   days (parse_duration ascii_decimal (nice ''sick'' ''1d 2h'' (-1))) = 1 \<and>
   hours (parse_duration ascii_decimal (nice ''sick'' ''1d 2h'' (-1))) = 2 \<and>
   total_minutes (parse_duration ascii_decimal (nice ''sick'' ''1d 2h'' (-1))) = 60"
  using parse_duration_divisor [of "nice ''sick'' ''1d 2h'' 0" ascii_decimal]
    parse_duration_divisor [of "nice ''sick'' ''1d 2h'' (-1)" ascii_decimal]
  by (simp add: parse_eval)

subsection \<open>The summary by category\<close>

lemma keys_map_entry: "map fst (AList.map_entry k f xs) = map fst xs"
  by (induction xs) auto

lemma keys_add_record:
  "map fst (add_record dv by_type rec) =
     (if group_key rec \<in> set (map fst by_type) then map fst by_type
      else map fst by_type @ [group_key rec])"
  by (auto simp add: add_record_def Let_def keys_map_entry AList.update_keys map_of_eq_None_iff)

lemma keys_collect:
  "distinct (map fst by_type) \<Longrightarrow>
     distinct (map fst (foldl (add_record dv) by_type records))
     \<and> set (map fst (foldl (add_record dv) by_type records))
         = set (map fst by_type) \<union> group_key ` set records"
proof (induction records arbitrary: by_type)
  case Nil
  then show ?case by simp
next
  case (Cons rec records)
  have "distinct (map fst (add_record dv by_type rec))"
    using Cons.prems by (simp add: keys_add_record)
  from Cons.IH [OF this] show ?case
    by (auto simp add: keys_add_record)
qed

lemma minutes_of_simps [simp]:
  "minutes_of [] = 0"
  "minutes_of ((key, info) # items) = g_total_minutes info + minutes_of items"
  "minutes_of (xs @ ys) = minutes_of xs + minutes_of ys"
  by (simp_all add: minutes_of_def)

lemma minutes_of_count:
  "minutes_of (AList.map_entry k (\<lambda>info. info\<lparr>g_count := c info\<rparr>) xs) = minutes_of xs"
  by (induction xs) auto

lemma minutes_of_add:
  "k \<in> fst ` set xs \<Longrightarrow>
     minutes_of (AList.map_entry k (\<lambda>info. info\<lparr>g_total_minutes := g_total_minutes info + x\<rparr>) xs)
       = minutes_of xs + x"
proof (induction xs)
  case Nil
  then show ?case by simp
next
  case (Cons p xs)
  obtain key info where p: "p = (key, info)" by (cases p)
  show ?case
  proof (cases "key = k")
    case True
    then show ?thesis by (simp add: p)
  next
    case False
    then have "k \<in> fst ` set xs" using Cons.prems by (auto simp add: p)
    then show ?thesis using Cons.IH False by (simp add: p)
  qed
qed

lemma minutes_of_update_new:
  "k \<notin> fst ` set xs \<Longrightarrow> minutes_of (AList.update k v xs) = minutes_of xs + g_total_minutes v"
  by (induction xs) auto

lemma minutes_of_add_record:
  "minutes_of (add_record dv by_type rec)
     = minutes_of by_type + total_minutes (parse_duration dv rec)"
proof (cases "map_of by_type (group_key rec) = None")
  case True
  then have "group_key rec \<notin> fst ` set by_type"
    by (simp add: map_of_eq_None_iff)
  then show ?thesis
    using True
    by (simp add: add_record_def Let_def minutes_of_add minutes_of_count
        minutes_of_update_new AList.dom_map_entry AList.dom_update)
next
  case False
  then have "group_key rec \<in> fst ` set by_type"
    by (simp add: map_of_eq_None_iff)
  moreover from False obtain info where "map_of by_type (group_key rec) = Some info"
    by auto
  ultimately show ?thesis
    by (simp add: add_record_def Let_def minutes_of_add minutes_of_count AList.dom_map_entry)
qed

lemma minutes_of_foldl:
  "minutes_of (foldl (add_record dv) by_type records)
     = minutes_of by_type + (\<Sum>rec \<leftarrow> records. total_minutes (parse_duration dv rec))"
  by (induction records arbitrary: by_type) (simp_all add: minutes_of_add_record)

lemma minutes_of_insort:
  "minutes_of (insort_key f x xs) = minutes_of [x] + minutes_of xs"
  by (induction xs) (auto simp add: minutes_of_def)

lemma minutes_of_sort: "minutes_of (sort_key f xs) = minutes_of xs"
proof (induction xs)
  case Nil
  then show ?case by simp
next
  case (Cons x xs)
  then show ?case
    using minutes_of_simps(3) [of "[x]" xs] by (simp add: minutes_of_insort)
qed

lemma make_rows_labels:
  "make_rows items = Inr out \<Longrightarrow> map row_leave_type out = map fst items"
proof (induction items arbitrary: out)
  case Nil
  then show ?case by simp
next
  case (Cons item items)
  obtain key info where item: "item = (key, info)" by (cases item)
  from Cons.prems obtain row rows where
    row: "make_row key info = Inr row" and rows: "make_rows items = Inr rows"
    and out: "out = row # rows"
    by (auto simp add: item split: sum.splits)
  have "row_leave_type row = key"
    using row by (auto simp add: make_row_def Let_def split: if_splits)
  then show ?case using Cons.IH [OF rows] by (simp add: out item)
qed

text \<open>
  C7. For every sequence of records, the output of \<^verbatim>\<open>summarize_nice_records\<close> is sorted
  by category label whatever the order of the input (its labels are the sorted list of
  the set of the labels of the records, each once), and the minutes accumulated over all
  the groups of the output sum to the \<^verbatim>\<open>total_minutes\<close> of \<^verbatim>\<open>parse_duration\<close> over all the
  records. The first part is about every output the function returns: it raises
  \<^verbatim>\<open>ZeroDivisionError\<close> when \<^verbatim>\<open>int(hpd * 60)\<close> is 0 for a group (see
  \<open>summarize_returns\<close> and \<open>summarize_raises\<close> below).
\<close>

theorem summarize_sorted_and_total:
  "(\<forall>out. summarize_nice_records dv records = Inr out \<longrightarrow>
      sorted (map row_leave_type out) \<and> distinct (map row_leave_type out)
      \<and> map row_leave_type out = sorted_list_of_set (group_key ` set records))
   \<and> (\<Sum>(key, info) \<leftarrow> sort_key fst (collect dv records). g_total_minutes info)
       = (\<Sum>rec \<leftarrow> records. total_minutes (parse_duration dv rec))"
proof (intro conjI allI impI)
  fix out
  assume "summarize_nice_records dv records = Inr out"
  then have labels: "map row_leave_type out = map fst (sort_key fst (collect dv records))"
    unfolding summarize_nice_records_def by (rule make_rows_labels)
  have keys: "distinct (map fst (collect dv records))"
    "set (map fst (collect dv records)) = group_key ` set records"
    using keys_collect [of "[]" dv records] by (simp_all add: collect_def)
  show sorted: "sorted (map row_leave_type out)"
    by (simp add: labels)
  have "distinct (sort_key fst (collect dv records))"
    using keys(1) by (simp add: distinct_map)
  moreover have "inj_on fst (set (sort_key fst (collect dv records)))"
    using keys(1) by (simp add: distinct_map)
  ultimately show distinct: "distinct (map row_leave_type out)"
    by (simp add: labels distinct_map)
  have "set (map row_leave_type out) = group_key ` set records"
    using keys(2) by (simp add: labels)
  then show "map row_leave_type out = sorted_list_of_set (group_key ` set records)"
    using sorted distinct
    by (intro sorted_distinct_set_unique) simp_all
next
  show "(\<Sum>(key, info) \<leftarrow> sort_key fst (collect dv records). g_total_minutes info)
       = (\<Sum>rec \<leftarrow> records. total_minutes (parse_duration dv rec))"
    using minutes_of_sort [of fst "collect dv records"] minutes_of_foldl [of dv "[]" records]
    by (simp add: minutes_of_def collect_def)
qed

lemma collect_sample_records:
  "collect ascii_decimal sample_records =
     [(lit ''sick'', \<lparr>g_leave_type = lit ''sick'', g_count = 2, g_total_minutes = 1350,
         g_hours_per_day = 8\<rparr>),
      (lit ''annual'', \<lparr>g_leave_type = lit ''annual'', g_count = 1, g_total_minutes = 480,
         g_hours_per_day = 8\<rparr>),
      (unspecified, \<lparr>g_leave_type = unspecified, g_count = 1, g_total_minutes = 14400,
         g_hours_per_day = 8\<rparr>)]"
  by (simp add: collect_def add_record_def group_key_def or_str_def unspecified_def
      sample_records_def parse_eval Let_def)

lemma collect_rev_sample_records:
  "collect ascii_decimal (rev sample_records) =
     [(unspecified, \<lparr>g_leave_type = unspecified, g_count = 1, g_total_minutes = 14400,
         g_hours_per_day = 8\<rparr>),
      (lit ''sick'', \<lparr>g_leave_type = lit ''sick'', g_count = 2, g_total_minutes = 1350,
         g_hours_per_day = 8\<rparr>),
      (lit ''annual'', \<lparr>g_leave_type = lit ''annual'', g_count = 1, g_total_minutes = 480,
         g_hours_per_day = 8\<rparr>)]"
  by (simp add: collect_def add_record_def group_key_def or_str_def unspecified_def
      sample_records_def parse_eval Let_def)

lemmas rows_eval = summarize_nice_records_def make_row_def py_trunc_def sample_rows_def
  unspecified_def lit_def Let_def

theorem summarize_sorted_and_total_witness:
  "summarize_nice_records ascii_decimal sample_records = Inr sample_rows \<and>
   summarize_nice_records ascii_decimal (rev sample_records) = Inr sample_rows \<and>
   map row_leave_type sample_rows = [lit ''annual'', lit ''sick'', unspecified] \<and>
   sorted (map row_leave_type sample_rows) \<and>
   map row_leave_type sample_rows = sorted_list_of_set (group_key ` set sample_records) \<and>
   (\<Sum>(key, info) \<leftarrow> sort_key fst (collect ascii_decimal sample_records).
       g_total_minutes info) = 16230 \<and>
   (\<Sum>rec \<leftarrow> sample_records. total_minutes (parse_duration ascii_decimal rec)) = 16230"
proof -
  have out: "summarize_nice_records ascii_decimal sample_records = Inr sample_rows"
    by (simp add: collect_sample_records rows_eval)
  have rev_out: "summarize_nice_records ascii_decimal (rev sample_records) = Inr sample_rows"
    by (simp add: collect_rev_sample_records rows_eval)
  have labels: "map row_leave_type sample_rows = [lit ''annual'', lit ''sick'', unspecified]"
    by (simp add: sample_rows_def)
  have total: "(\<Sum>(key, info) \<leftarrow> sort_key fst (collect ascii_decimal sample_records).
       g_total_minutes info) = 16230"
    by (simp add: collect_sample_records unspecified_def lit_def)
  show ?thesis
    using summarize_sorted_and_total [of ascii_decimal sample_records] out rev_out labels total
    by simp
qed

text \<open>
  When does the function return? The groups keep the hours of the record that opened
  them, so it returns whenever \<^verbatim>\<open>int(hpd * 60)\<close> is not 0 for any record; a record with
  0.01 hours a day makes it raise.
\<close>

lemma map_entry_pres:
  "\<forall>p \<in> set xs. P (snd p) \<Longrightarrow> (\<And>v. P v \<Longrightarrow> P (f v)) \<Longrightarrow>
     \<forall>p \<in> set (AList.map_entry k f xs). P (snd p)"
  by (induction xs) auto

lemma update_pres:
  "\<forall>p \<in> set xs. P (snd p) \<Longrightarrow> P v \<Longrightarrow> \<forall>p \<in> set (AList.update k v xs). P (snd p)"
  by (induction xs) auto

lemma add_record_hours:
  assumes "\<forall>p \<in> set by_type. py_trunc (g_hours_per_day (snd p) * 60) \<noteq> 0"
    and "py_trunc (or_real (hours_per_day rec) 8 * 60) \<noteq> 0"
  shows "\<forall>p \<in> set (add_record dv by_type rec). py_trunc (g_hours_per_day (snd p) * 60) \<noteq> 0"
proof -
  let ?ok = "\<lambda>info. py_trunc (g_hours_per_day info * 60) \<noteq> 0"
  define init where
    "init = \<lparr>g_leave_type = group_key rec, g_count = 0, g_total_minutes = 0,
             g_hours_per_day = or_real (hours_per_day rec) 8\<rparr>"
  define by_type1 where
    "by_type1 = (if map_of by_type (group_key rec) = None
                 then AList.update (group_key rec) init by_type else by_type)"
  have "py_trunc (g_hours_per_day init * 60) \<noteq> 0"
    using assms(2) by (simp add: init_def)
  then have "\<forall>p \<in> set (AList.update (group_key rec) init by_type).
               py_trunc (g_hours_per_day (snd p) * 60) \<noteq> 0"
    using assms(1) by (intro update_pres [where P = ?ok])
  then have "\<forall>p \<in> set by_type1. py_trunc (g_hours_per_day (snd p) * 60) \<noteq> 0"
    using assms(1) by (simp add: by_type1_def)
  then have "\<forall>p \<in> set (AList.map_entry (group_key rec)
                 (\<lambda>info. info\<lparr>g_count := g_count info + 1\<rparr>) by_type1).
               py_trunc (g_hours_per_day (snd p) * 60) \<noteq> 0"
    by (rule map_entry_pres [where P = ?ok]) simp_all
  then have "\<forall>p \<in> set (AList.map_entry (group_key rec)
                 (\<lambda>info. info\<lparr>g_total_minutes := g_total_minutes info
                    + total_minutes (parse_duration dv rec)\<rparr>)
                 (AList.map_entry (group_key rec)
                    (\<lambda>info. info\<lparr>g_count := g_count info + 1\<rparr>) by_type1)).
               py_trunc (g_hours_per_day (snd p) * 60) \<noteq> 0"
    by (rule map_entry_pres [where P = ?ok]) simp_all
  then show ?thesis
    by (simp only: add_record_def Let_def by_type1_def init_def)
qed

lemma collect_hours:
  "\<forall>p \<in> set by_type. py_trunc (g_hours_per_day (snd p) * 60) \<noteq> 0 \<Longrightarrow>
   \<forall>rec \<in> set records. py_trunc (or_real (hours_per_day rec) 8 * 60) \<noteq> 0 \<Longrightarrow>
   \<forall>p \<in> set (foldl (add_record dv) by_type records).
      py_trunc (g_hours_per_day (snd p) * 60) \<noteq> 0"
proof (induction records arbitrary: by_type)
  case Nil
  then show ?case by simp
next
  case (Cons rec records)
  have "\<forall>p \<in> set (add_record dv by_type rec). py_trunc (g_hours_per_day (snd p) * 60) \<noteq> 0"
    using Cons.prems by (intro add_record_hours) simp_all
  then show ?case using Cons.IH Cons.prems(2) by simp
qed

lemma make_rows_returns:
  "\<forall>p \<in> set items. py_trunc (g_hours_per_day (snd p) * 60) \<noteq> 0 \<Longrightarrow>
     \<exists>out. make_rows items = Inr out"
proof (induction items)
  case Nil
  then show ?case by simp
next
  case (Cons item items)
  obtain key info where item: "item = (key, info)" by (cases item)
  from Cons obtain rows where "make_rows items = Inr rows" by auto
  moreover have "\<exists>row. make_row key info = Inr row"
    using Cons.prems by (simp add: item make_row_def Let_def)
  ultimately show ?case by (auto simp add: item)
qed

lemma summarize_returns:
  assumes "\<forall>rec \<in> set records. py_trunc (or_real (hours_per_day rec) 8 * 60) \<noteq> 0"
  shows "\<exists>out. summarize_nice_records dv records = Inr out"
proof -
  have "\<forall>p \<in> set (collect dv records). py_trunc (g_hours_per_day (snd p) * 60) \<noteq> 0"
    unfolding collect_def using assms by (intro collect_hours) simp_all
  then show ?thesis
    unfolding summarize_nice_records_def by (intro make_rows_returns) simp
qed

lemma summarize_raises:
  "summarize_nice_records ascii_decimal [nice ''sick'' ''1d'' 0.01] = Inl ZeroDivisionError"
  by (simp add: summarize_nice_records_def collect_def add_record_def group_key_def or_str_def
      unspecified_def make_row_def py_trunc_def parse_eval Let_def)

subsection \<open>Suggested days\<close>






text \<open>
  C10. For a rule whose \<^verbatim>\<open>grant_type\<close> is none of the five tags the function compares with
  (\<^verbatim>\<open>"law_basic"\<close>, \<^verbatim>\<open>"gw_cba_school"\<close>, \<^verbatim>\<open>"gw_cba_institute"\<close>, \<^verbatim>\<open>"external_days"\<close>,
  \<^verbatim>\<open>"manual_only"\<close>) and every service profile, no branch is taken: the result keeps the
  initial \<^verbatim>\<open>suggested_days = 0.0\<close>, a number and not \<^verbatim>\<open>None\<close>, and the empty description.
\<close>

theorem suggest_unknown_grant_type:
  assumes "grant_type rule \<notin> {lit ''law_basic'', lit ''gw_cba_school'',
             lit ''gw_cba_institute'', lit ''external_days'', lit ''manual_only''}"
  shows "suggest_annual_days rule svc = \<lparr>suggested_days = Some (PFloat 0), description = []\<rparr>"
  using assms by (simp add: suggest_annual_days_def)

theorem suggest_unknown_grant_type_witness:
  "grant_type (rule_of ''cba_school'' 11 26) \<notin> {lit ''law_basic'', lit ''gw_cba_school'',
      lit ''gw_cba_institute'', lit ''external_days'', lit ''manual_only''} \<and>
   suggest_annual_days (rule_of ''cba_school'' 11 26) (service_of 3 12 95)
     = \<lparr>suggested_days = Some (PFloat 0), description = []\<rparr>"
  using suggest_unknown_grant_type [of "rule_of ''cba_school'' 11 26" "service_of 3 12 95"]
  by (simp add: rule_of_def)

subsection \<open>The daily wage\<close>

text \<open>
  The branches for \<^verbatim>\<open>"hourly"\<close> and \<^verbatim>\<open>"monthly"\<close> return 0 unless the amount and the other
  factor are positive, and an unknown wage type gives 0: the daily wage can be negative
  only on the branch for \<^verbatim>\<open>"daily"\<close>.
\<close>

lemma daily_wage_nonneg:
  "wage_type w \<noteq> lit ''daily'' \<or> 0 \<le> wage_amount w \<Longrightarrow> 0 \<le> daily_wage w"
  by (auto simp add: daily_wage_def)

text \<open>
  C3 says that \<^verbatim>\<open>daily_wage()\<close> is never negative, for every wage type and every amount.
  The branch for \<^verbatim>\<open>"daily"\<close> returns \<^verbatim>\<open>wage_amount\<close> without the test \<^verbatim>\<open>wage_amount > 0\<close> of
  the two other branches: a daily wage profile with the amount \<open>-1\<close> has the daily wage
  \<open>-1\<close>.
\<close>

theorem daily_wage_negative_daily:
  "daily_wage (wage_of ''daily'' (-1) 8 22) = -1 \<and> daily_wage (wage_of ''daily'' (-1) 8 22) < 0"
  by (simp add: daily_wage_def wage_of_def)

subsection \<open>Double precision\<close>

lemma pow2_powr: "pow2 e = 2 powr (of_int e)"
proof (cases "0 \<le> e")
  case True
  then have "2 powr (of_int e) = (2::real) powr (real (nat e))" by simp
  also have "\<dots> = 2 ^ nat e" by (simp add: powr_realpow)
  finally show ?thesis using True by (simp add: pow2_def)
next
  case False
  then have "2 powr (of_int e) = (2::real) powr (- real (nat (- e)))" by simp
  also have "\<dots> = 1 / 2 ^ nat (- e)" by (simp add: powr_minus powr_realpow divide_inverse)
  finally show ?thesis using False by (simp add: pow2_def)
qed

lemma pow2_pos [simp]: "0 < pow2 e"
  by (simp add: pow2_powr)

lemma pow2_add: "pow2 (a + b) = pow2 a * pow2 b"
  by (simp add: pow2_powr powr_add)

lemma pow2_mono: "a \<le> b \<Longrightarrow> pow2 a \<le> pow2 b"
  by (simp add: pow2_powr)

lemma pow2_nat: "pow2 (int n) = 2 ^ n"
  by (simp add: pow2_def)

lemma pow2_neg_nat: "pow2 (- int n) = 1 / 2 ^ n"
  by (auto simp add: pow2_def)

lemma binade_bounds:
  assumes "x \<noteq> 0"
  shows "pow2 (binade x) \<le> \<bar>x\<bar>" and "\<bar>x\<bar> < pow2 (binade x + 1)"
proof -
  have "pow2 (binade x) \<le> \<bar>x\<bar> \<and> \<bar>x\<bar> < pow2 (binade x + 1)"
  proof (cases "1 \<le> \<bar>x\<bar>")
    case True
    define n where "n = \<lfloor>\<bar>x\<bar>\<rfloor>"
    have n: "0 < n" using True by (simp add: n_def)
    from bitlen_bounds [OF n] have b: "2 ^ nat (bitlen n - 1) \<le> n" "n < 2 ^ nat (bitlen n)"
      by simp_all
    have k: "1 \<le> bitlen n" using n by (simp add: bitlen_alt_def)
    have e: "binade x = bitlen n - 1" using True by (simp add: binade_def n_def)
    have "pow2 (binade x) = 2 ^ nat (bitlen n - 1)"
      using k by (simp add: e pow2_def)
    also have "\<dots> \<le> of_int n" using b(1) by (metis of_int_le_iff of_int_numeral of_int_power)
    also have "\<dots> \<le> \<bar>x\<bar>" by (simp add: n_def)
    finally have lo: "pow2 (binade x) \<le> \<bar>x\<bar>" .
    have "n + 1 \<le> 2 ^ nat (bitlen n)" using b(2) by simp
    then have "of_int (n + 1) \<le> (2::real) ^ nat (bitlen n)"
      by (metis of_int_le_iff of_int_numeral of_int_power)
    moreover have "\<bar>x\<bar> < of_int (n + 1)" by (simp add: n_def)
    moreover have "pow2 (binade x + 1) = 2 ^ nat (bitlen n)"
      using k by (simp add: e pow2_def)
    ultimately have "\<bar>x\<bar> < pow2 (binade x + 1)" by simp
    with lo show ?thesis by simp
  next
    case False
    define y where "y = 1 / \<bar>x\<bar>"
    have x: "0 < \<bar>x\<bar>" "\<bar>x\<bar> < 1" using assms False by simp_all
    then have y: "1 < y" by (simp add: y_def)
    define n where "n = \<lceil>y\<rceil> - 1"
    have n: "0 < n" using y by (simp add: n_def)
    from bitlen_bounds [OF n] have b: "2 ^ nat (bitlen n - 1) \<le> n" "n < 2 ^ nat (bitlen n)"
      by simp_all
    have k: "1 \<le> bitlen n" using n by (simp add: bitlen_alt_def)
    have e: "binade x = - bitlen n" using False by (simp add: binade_def n_def y_def)
    have "y \<le> of_int (n + 1)" by (simp add: n_def)
    moreover have "n + 1 \<le> 2 ^ nat (bitlen n)" using b(2) by simp
    then have "of_int (n + 1) \<le> (2::real) ^ nat (bitlen n)"
      by (metis of_int_le_iff of_int_numeral of_int_power)
    ultimately have "y \<le> 2 ^ nat (bitlen n)" by linarith
    then have "1 / 2 ^ nat (bitlen n) \<le> \<bar>x\<bar>"
      using x by (simp add: y_def field_simps)
    moreover have "pow2 (binade x) = 1 / 2 ^ nat (bitlen n)"
      using k by (simp add: e pow2_def)
    ultimately have lo: "pow2 (binade x) \<le> \<bar>x\<bar>" by simp
    have "of_int n < y" using ceiling_correct [of y] by (simp add: n_def)
    moreover have "(2::real) ^ nat (bitlen n - 1) \<le> of_int n"
      using b(1) by (metis of_int_le_iff of_int_numeral of_int_power)
    ultimately have "2 ^ nat (bitlen n - 1) < y" by linarith
    then have "\<bar>x\<bar> < 1 / 2 ^ nat (bitlen n - 1)"
      using x by (simp add: y_def field_simps)
    moreover have "pow2 (binade x + 1) = 1 / 2 ^ nat (bitlen n - 1)"
    proof -
      have "binade x + 1 = - int (nat (bitlen n - 1))" using k by (simp add: e)
      then show ?thesis by (simp only: pow2_neg_nat)
    qed
    ultimately have "\<bar>x\<bar> < pow2 (binade x + 1)" by simp
    with lo show ?thesis by simp
  qed
  then show "pow2 (binade x) \<le> \<bar>x\<bar>" and "\<bar>x\<bar> < pow2 (binade x + 1)" by simp_all
qed

lemma round_even_error: "\<bar>of_int (round_even y) - y\<bar> \<le> 1 / 2"
  by (auto simp add: round_even_def Let_def)

lemma round_even_of_int [simp]: "round_even (of_int n) = n"
  by (simp add: round_even_def)

lemma quantum_pos [simp]: "0 < quantum x"
  by (simp add: quantum_def)

lemma quantum_nonzero [simp]: "quantum x \<noteq> 0"
  by (metis less_irrefl quantum_pos)

lemma fl_error: "\<bar>fl x - x\<bar> \<le> quantum x / 2"
proof (cases "x = 0")
  case True
  then show ?thesis by (simp add: fl_def less_imp_le)
next
  case False
  define r where "r = round_even (x / quantum x)"
  have "of_int r * quantum x - x = (of_int r - x / quantum x) * quantum x"
    by (simp add: field_simps)
  then have "\<bar>fl x - x\<bar> = \<bar>of_int r - x / quantum x\<bar> * quantum x"
    using False by (simp add: fl_def r_def abs_mult less_imp_le)
  also have "\<dots> \<le> 1 / 2 * quantum x"
    unfolding r_def by (intro mult_right_mono round_even_error) (simp add: less_imp_le)
  finally show ?thesis by simp
qed

lemma fl_multiple:
  assumes "x / quantum x = of_int m"
  shows "fl x = x"
proof (cases "x = 0")
  case True
  then show ?thesis by (simp add: fl_def)
next
  case False
  have "x = of_int m * quantum x"
    using assms by (simp add: field_simps)
  then show ?thesis
    using False assms by (simp add: fl_def)
qed

lemma binade_range:
  assumes "pow2 lo \<le> \<bar>x\<bar>" "\<bar>x\<bar> < pow2 hi"
  shows "lo \<le> binade x" "binade x < hi"
proof -
  have x: "x \<noteq> 0"
  proof
    assume "x = 0"
    then have "pow2 lo \<le> 0" using assms(1) by simp
    then show False using pow2_pos [of lo] by linarith
  qed
  show "lo \<le> binade x"
  proof (rule ccontr)
    assume "\<not> lo \<le> binade x"
    then have "binade x + 1 \<le> lo" by simp
    then have "pow2 (binade x + 1) \<le> pow2 lo" by (rule pow2_mono)
    with binade_bounds(2) [OF x] assms(1) show False by linarith
  qed
  show "binade x < hi"
  proof (rule ccontr)
    assume "\<not> binade x < hi"
    then have "pow2 hi \<le> pow2 (binade x)" by (intro pow2_mono) simp
    with binade_bounds(1) [OF x] assms(2) show False by linarith
  qed
qed

lemma quantum_normal:
  assumes "- 1022 \<le> binade x"
  shows "quantum x = pow2 (binade x) / 2 ^ 52"
proof -
  have "pow2 (binade x - 52) * pow2 52 = pow2 (binade x)"
    using pow2_add [of "binade x - 52" 52] by simp
  moreover have "pow2 52 = 2 ^ 52" using pow2_nat [of 52] by simp
  ultimately have "pow2 (binade x - 52) = pow2 (binade x) / 2 ^ 52"
    by (simp add: field_simps)
  then show ?thesis using assms by (simp add: quantum_def max_def)
qed

lemma divide_quantum:
  assumes "- 1022 \<le> binade x"
  shows "x / quantum x = x * pow2 (52 - binade x)"
proof -
  have "pow2 (binade x - 52) * pow2 (52 - binade x) = pow2 0"
    using pow2_add [of "binade x - 52" "52 - binade x"] by simp
  then have "quantum x * pow2 (52 - binade x) = 1"
    using assms by (simp add: quantum_def max_def pow2_def)
  then show ?thesis
    by (metis divide_divide_eq_right div_by_1 divide_self_if mult.commute mult.right_neutral
        nonzero_eq_divide_eq quantum_nonzero times_divide_eq_right)
qed

text \<open>A number that is a whole multiple of \<open>1 / 2 ^ k\<close> and has at most 53 bits is a double.\<close>

lemma fl_dyadic:
  assumes "x * 2 ^ k = of_int m" "1 \<le> \<bar>x\<bar>" "\<bar>x\<bar> \<le> 2 ^ 53" "int k + binade x \<le> 52 \<or> k = 0"
  shows "fl x = x"
proof -
  have x: "x \<noteq> 0" using assms(2) by auto
  have "pow2 0 \<le> \<bar>x\<bar>" using assms(2) by (simp add: pow2_def)
  moreover have "\<bar>x\<bar> < pow2 54" using assms(3) by (simp add: pow2_def)
  ultimately have e: "0 \<le> binade x" "binade x < 54" by (rule binade_range)+
  have dq: "x / quantum x = x * pow2 (52 - binade x)"
    using e by (intro divide_quantum) simp
  show ?thesis
  proof (cases "binade x \<le> 52")
    case True
    define d where "d = nat (52 - binade x)"
    have d: "52 - binade x = int d" using True by (simp add: d_def)
    have xd: "x / quantum x = x * 2 ^ d" by (simp add: dq d pow2_nat)
    show ?thesis
    proof (cases "k \<le> d")
      case True
      then obtain c where c: "d = k + c" using le_Suc_ex by blast
      have "x / quantum x = x * 2 ^ k * 2 ^ c"
        by (simp add: xd c power_add)
      also have "\<dots> = of_int (m * 2 ^ c)" by (simp add: assms(1))
      finally show ?thesis by (rule fl_multiple)
    next
      case False
      with assms(4) d have "k = 0" by linarith
      then have "x / quantum x = of_int (m * 2 ^ d)"
        using xd assms(1) by simp
      then show ?thesis by (rule fl_multiple)
    qed
  next
    case False
    then have e53: "binade x = 53" using e(2) by simp
    have "pow2 53 \<le> \<bar>x\<bar>" using binade_bounds(1) [OF x] by (simp add: e53)
    then have ax: "\<bar>x\<bar> = 2 ^ 53" using assms(3) by (simp add: pow2_def)
    have "x / quantum x = x / 2" by (simp add: dq e53 pow2_def)
    also have "\<dots> = of_int (if 0 \<le> x then 2 ^ 52 else - (2 ^ 52))"
      using ax by (auto simp add: abs_if split: if_splits)
    finally show ?thesis by (rule fl_multiple)
  qed
qed

lemma fl_of_int:
  assumes "\<bar>n\<bar> \<le> 2 ^ 53"
  shows "fl (of_int n) = of_int n"
proof (cases "n = 0")
  case True
  then show ?thesis by (simp add: fl_def)
next
  case False
  have "\<bar>real_of_int n\<bar> \<le> 2 ^ 53"
    using assms by (metis of_int_abs of_int_le_iff of_int_numeral of_int_power)
  moreover have "1 \<le> \<bar>real_of_int n\<bar>"
    using False by (metis abs_ge_zero dual_order.antisym not_le of_int_abs of_int_le_1_iff
        abs_eq_0 less_le zless_imp_add1_zle zero_less_abs_iff add_0 of_int_1_le_iff)
  ultimately show ?thesis
    using fl_dyadic [of "of_int n" 0 n] by simp
qed

text \<open>The quotient of a double by a whole step does not cross a whole number when rounded.\<close>

lemma quotient_gap:
  assumes a: "fl a = a" "1 \<le> a" "a \<le> 2 ^ 52" and s: "1 \<le> s" and n: "of_int n * of_int s \<noteq> a"
  shows "a / 2 ^ 53 < \<bar>of_int n * of_int s - a\<bar>"
proof -
  have a0: "a \<noteq> 0" using a(2) by auto
  have "pow2 0 \<le> \<bar>a\<bar>" using a(2) by (simp add: pow2_def)
  moreover have "\<bar>a\<bar> < pow2 53" using a(2,3) by (simp add: pow2_def)
  ultimately have e: "0 \<le> binade a" "binade a < 53" by (rule binade_range)+
  define d where "d = nat (52 - binade a)"
  have d: "52 - binade a = int d" using e by (simp add: d_def)
  have dq: "a / quantum a = a * 2 ^ d"
    using divide_quantum [of a] e by (simp add: d pow2_nat)
  define m where "m = round_even (a / quantum a)"
  have "a = of_int m * quantum a"
    using a(1) a0 by (simp add: fl_def m_def)
  then have "a / quantum a = of_int m"
    by (metis nonzero_mult_div_cancel_right quantum_nonzero)
  then have am: "a * 2 ^ d = of_int m" using dq by simp
  define g where "g = \<bar>of_int n * of_int s - a\<bar>"
  define z where "z = n * s * 2 ^ d - m"
  have "of_int z = of_int n * of_int s * 2 ^ d - a * 2 ^ d"
    by (simp add: z_def am)
  then have z: "of_int z = (of_int n * of_int s - a) * 2 ^ d"
    by (simp only: left_diff_distrib)
  have "z \<noteq> 0"
  proof
    assume "z = 0"
    then have "(of_int n * of_int s - a) * 2 ^ d = 0" using z by simp
    then show False using n by simp
  qed
  then have "1 \<le> \<bar>z\<bar>" by simp
  then have "1 \<le> \<bar>real_of_int z\<bar>" by (metis of_int_1_le_iff of_int_abs)
  then have one: "1 \<le> g * 2 ^ d"
    by (simp add: z abs_mult g_def)
  have two: "a * 2 ^ d < 2 ^ 53"
  proof -
    have "\<bar>a\<bar> < pow2 (binade a + 1)" using binade_bounds(2) [OF a0] .
    then have "a * pow2 (52 - binade a) < pow2 (binade a + 1) * pow2 (52 - binade a)"
      using a(2) by (intro mult_strict_right_mono) simp_all
    also have "\<dots> = pow2 53" using pow2_add [of "binade a + 1" "52 - binade a"] by simp
    finally have "a * pow2 (int d) < pow2 (int 53)" by (simp add: d)
    then show ?thesis by (simp only: pow2_nat)
  qed
  have "a * 2 ^ d < 2 ^ 53 * 1" using two by simp
  also have "\<dots> \<le> 2 ^ 53 * (g * 2 ^ d)"
    using one by (intro mult_left_mono) simp_all
  finally have "a * 2 ^ d < (2 ^ 53 * g) * 2 ^ d"
    by (simp only: mult.assoc)
  then have "a < 2 ^ 53 * g"
    by (simp only: mult_less_cancel_right_pos zero_less_power zero_less_numeral)
  then have "a / 2 ^ 53 < g"
    by (simp only: pos_divide_less_eq zero_less_power zero_less_numeral mult.commute)
  then show ?thesis by (simp only: g_def)
qed

lemma real_of_int_le_pow2:
  "s \<le> 2 ^ k \<Longrightarrow> real_of_int s \<le> 2 ^ k"
  by (metis of_int_le_iff of_int_numeral of_int_power)

lemma fl_quotient_error:
  assumes "1 \<le> a" "a \<le> 2 ^ 52" "1 \<le> s" "s \<le> 2 ^ 52"
  shows "\<bar>fl (a / of_int s) - a / of_int s\<bar> \<le> a / of_int s / 2 ^ 53"
proof -
  define q where "q = a / real_of_int s"
  have s: "1 \<le> real_of_int s" "real_of_int s \<le> 2 ^ 52"
    using assms(3) real_of_int_le_pow2 [OF assms(4)] by simp_all
  have q0: "0 < q" using assms(1) s by (simp add: q_def)
  have "1 / 2 ^ 52 \<le> 1 / real_of_int s" using s by (intro divide_left_mono) simp_all
  also have "\<dots> \<le> a / real_of_int s" using assms(1) s by (intro divide_right_mono) simp_all
  finally have "1 / 2 ^ 52 \<le> q" by (simp only: q_def)
  then have lo: "pow2 (- 52) \<le> \<bar>q\<bar>" using q0 by (simp add: pow2_def)
  have "q \<le> a / 1" unfolding q_def using assms(1) s by (intro divide_left_mono) simp_all
  then have "q < 2 ^ 53" using assms(2) by simp
  then have hi: "\<bar>q\<bar> < pow2 53" using q0 by (simp add: pow2_def)
  from lo hi have e: "- 52 \<le> binade q" "binade q < 53" by (rule binade_range)+
  have "quantum q = pow2 (binade q) / 2 ^ 52"
    using e by (intro quantum_normal) simp
  moreover have "pow2 (binade q) \<le> q"
    using binade_bounds(1) [of q] q0 by simp
  ultimately have "quantum q \<le> q / 2 ^ 52" by (simp add: divide_right_mono)
  then have "quantum q / 2 \<le> q / 2 ^ 53" by simp
  then have "\<bar>fl q - q\<bar> \<le> q / 2 ^ 53" using fl_error [of q] by linarith
  then show ?thesis by (simp only: q_def)
qed

lemma fl_quotient_sign:
  assumes a: "fl a = a" "1 \<le> a" "a \<le> 2 ^ 52" and s: "1 \<le> s" "s \<le> 2 ^ 52"
  shows "of_int n < a / of_int s \<Longrightarrow> of_int n < fl (a / of_int s)"
    and "a / of_int s < of_int n \<Longrightarrow> fl (a / of_int s) < of_int n"
proof -
  define q where "q = a / real_of_int s"
  have sp: "0 < real_of_int s" using s(1) by simp
  have err: "\<bar>fl q - q\<bar> \<le> q / 2 ^ 53"
    unfolding q_def using a(2,3) s by (rule fl_quotient_error)
  have gap: "q / 2 ^ 53 < \<bar>of_int n - q\<bar>" if "of_int n \<noteq> q"
  proof -
    have qs: "q * of_int s = a" using sp by (simp add: q_def)
    have "of_int n * of_int s \<noteq> a"
    proof
      assume "of_int n * of_int s = a"
      then have "of_int n * of_int s = q * of_int s" using qs by simp
      then show False using that sp by simp
    qed
    then have "a / 2 ^ 53 < \<bar>of_int n * of_int s - a\<bar>"
      using a s(1) by (intro quotient_gap)
    then have "a / 2 ^ 53 / of_int s < \<bar>of_int n * of_int s - a\<bar> / of_int s"
      using sp by (intro divide_strict_right_mono)
    moreover have "\<bar>of_int n * of_int s - a\<bar> / of_int s = \<bar>of_int n - q\<bar>"
    proof -
      have "(of_int n * of_int s - a) / of_int s = of_int n - q"
        using sp by (simp add: q_def diff_divide_distrib)
      then have "\<bar>(of_int n * of_int s - a) / of_int s\<bar> = \<bar>of_int n - q\<bar>" by simp
      then show ?thesis using sp by (simp only: abs_divide abs_of_pos)
    qed
    moreover have "a / 2 ^ 53 / of_int s = q / 2 ^ 53"
      by (simp add: q_def)
    ultimately show ?thesis by simp
  qed
  have "of_int n < fl q" if "of_int n < q"
  proof -
    have "q / 2 ^ 53 < q - of_int n" using gap that by simp
    then show ?thesis using err by linarith
  qed
  then show "of_int n < a / of_int s \<Longrightarrow> of_int n < fl (a / of_int s)"
    by (simp only: q_def)
  have "fl q < of_int n" if "q < of_int n"
  proof -
    have "q / 2 ^ 53 < of_int n - q" using gap that by simp
    then show ?thesis using err by linarith
  qed
  then show "a / of_int s < of_int n \<Longrightarrow> fl (a / of_int s) < of_int n"
    by (simp only: q_def)
qed

lemma fl_quotient_floor_ceiling:
  assumes a: "fl a = a" "1 \<le> a" "a \<le> 2 ^ 52" and s: "1 \<le> s" "s \<le> 2 ^ 52"
  shows "\<lfloor>fl (a / of_int s)\<rfloor> = \<lfloor>a / of_int s\<rfloor>" and "\<lceil>fl (a / of_int s)\<rceil> = \<lceil>a / of_int s\<rceil>"
proof -
  define q where "q = a / real_of_int s"
  have sp: "1 \<le> real_of_int s" using s(1) by simp
  have q0: "0 < q" using a(2) sp by (simp add: q_def)
  have "q \<le> a / 1" unfolding q_def using a(2) sp by (intro divide_left_mono) simp_all
  then have q1: "q \<le> 2 ^ 52" using a(3) by simp
  have whole: "fl q = q" if "q = of_int k" for k
  proof -
    have "real_of_int k \<le> real_of_int (2 ^ 52)" using q1 that by simp
    then have "k \<le> 2 ^ 52" by (simp only: of_int_le_iff)
    moreover have "0 < real_of_int k" using q0 that by simp
    then have "0 < k" by simp
    ultimately have "\<bar>k\<bar> \<le> 2 ^ 53" by simp
    then show ?thesis using fl_of_int [of k] that by simp
  qed
  have lt: "of_int k < fl q" if "of_int k < q" for k
    using fl_quotient_sign(1) [OF a s, of k] that by (simp only: q_def)
  have gt: "fl q < of_int k" if "q < of_int k" for k
    using fl_quotient_sign(2) [OF a s, of k] that by (simp only: q_def)
  have "\<lfloor>fl q\<rfloor> = \<lfloor>q\<rfloor>"
  proof (cases "q = of_int \<lfloor>q\<rfloor>")
    case True
    then have "fl q = q" by (rule whole)
    then show ?thesis by simp
  next
    case False
    then have "of_int \<lfloor>q\<rfloor> < q" by (metis of_int_floor_le order_le_less)
    then have "of_int \<lfloor>q\<rfloor> < fl q" by (rule lt)
    moreover have "q < of_int (\<lfloor>q\<rfloor> + 1)" by simp
    then have "fl q < of_int (\<lfloor>q\<rfloor> + 1)" by (rule gt)
    ultimately show ?thesis by (intro floor_unique) simp_all
  qed
  then show "\<lfloor>fl (a / of_int s)\<rfloor> = \<lfloor>a / of_int s\<rfloor>" by (simp only: q_def)
  have "\<lceil>fl q\<rceil> = \<lceil>q\<rceil>"
  proof (cases "q = of_int \<lceil>q\<rceil>")
    case True
    then have "fl q = q" by (rule whole)
    then show ?thesis by simp
  next
    case False
    then have "q < of_int \<lceil>q\<rceil>" by (metis le_of_int_ceiling order_le_less)
    then have "fl q < of_int \<lceil>q\<rceil>" by (rule gt)
    moreover have "of_int (\<lceil>q\<rceil> - 1) < q" using ceiling_correct [of q] by simp
    then have "of_int (\<lceil>q\<rceil> - 1) < fl q" by (rule lt)
    ultimately show ?thesis by (intro ceiling_unique) simp_all
  qed
  then show "\<lceil>fl (a / of_int s)\<rceil> = \<lceil>a / of_int s\<rceil>" by (simp only: q_def)
qed

lemma float_of_int_small:
  assumes "\<bar>n\<bar> \<le> 2 ^ 53"
  shows "float_of_int n = Inr (Fin (of_int n))"
proof -
  have "\<bar>real_of_int n\<bar> \<le> 2 ^ 53"
    using assms by (metis of_int_abs real_of_int_le_pow2)
  then have "\<bar>real_of_int n\<bar> < 2 ^ 1024" by (simp add: less_le_trans [where y = "2 ^ 53 + 1"])
  then show ?thesis using fl_of_int [OF assms] by (simp add: float_of_int_def)
qed

lemma truediv_small:
  assumes a: "fl a = a" "1 \<le> a" "a \<le> 2 ^ 52" and s: "1 \<le> s" "s \<le> 2 ^ 52"
  shows "py_truediv (VFloat (Fin a)) (VInt s) = Inr (Fin (fl (a / of_int s)))"
proof -
  define q where "q = a / real_of_int s"
  have sp: "1 \<le> real_of_int s" using s(1) by simp
  have q0: "0 < q" using a(2) sp by (simp add: q_def)
  have "q \<le> a / 1" unfolding q_def using a(2) sp by (intro divide_left_mono) simp_all
  then have q1: "q \<le> 2 ^ 52" using a(3) by simp
  have fq: "\<lfloor>fl q\<rfloor> = \<lfloor>q\<rfloor>"
    unfolding q_def using a s by (rule fl_quotient_floor_ceiling(1))
  have "real_of_int \<lfloor>q\<rfloor> \<le> fl q" using fq by (metis of_int_floor_le)
  moreover have "0 \<le> \<lfloor>q\<rfloor>" using q0 by simp
  ultimately have lo: "0 \<le> fl q" by linarith
  have "fl q < real_of_int \<lfloor>fl q\<rfloor> + 1" by linarith
  also have "\<dots> \<le> q + 1" using fq by simp
  also have "\<dots> \<le> 2 ^ 52 + 1" using q1 by simp
  finally have "fl q < 2 ^ 1024" by simp
  then have r: "rnd q = Fin (fl q)" using lo by (simp add: rnd_def)
  have "\<bar>s\<bar> \<le> 2 ^ 53" using s by simp
  then have fs: "float_of_int s = Inr (Fin (of_int s))" by (rule float_of_int_small)
  have "real_of_int s \<noteq> 0" using sp by simp
  then show ?thesis
    using r by (simp add: py_truediv_def bind_def fs fdiv_def q_def)
qed

lemma round_money_f64_floor:
  assumes a: "fl a = a" "1 \<le> a" "a \<le> 2 ^ 52" and s: "1 \<le> s" "s \<le> 2 ^ 52"
  shows "round_money_f64 (Fin a) s (lit ''floor'') = Inr (Fin (of_int (\<lfloor>a / of_int s\<rfloor> * s)))"
proof -
  define q where "q = a / real_of_int s"
  have sp: "1 \<le> real_of_int s" using s(1) by simp
  have q0: "0 < q" using a(2) sp by (simp add: q_def)
  have qs: "q * of_int s = a" using sp by (simp add: q_def)
  have "real_of_int \<lfloor>q\<rfloor> * of_int s \<le> q * of_int s"
    using sp by (intro mult_right_mono) simp_all
  then have "real_of_int (\<lfloor>q\<rfloor> * s) \<le> real_of_int (2 ^ 52)" using qs a(3) by simp
  then have "\<lfloor>q\<rfloor> * s \<le> 2 ^ 52" by (simp only: of_int_le_iff)
  moreover have "0 \<le> \<lfloor>q\<rfloor> * s" using q0 s(1) by simp
  ultimately have "\<bar>\<lfloor>q\<rfloor> * s\<bar> \<le> 2 ^ 53" by simp
  then have "float_of_int (\<lfloor>q\<rfloor> * s) = Inr (Fin (of_int (\<lfloor>q\<rfloor> * s)))"
    by (rule float_of_int_small)
  moreover have "\<lfloor>fl q\<rfloor> = \<lfloor>q\<rfloor>"
    unfolding q_def using a s by (rule fl_quotient_floor_ceiling(1))
  moreover have "py_truediv (VFloat (Fin a)) (VInt s) = Inr (Fin (fl q))"
    unfolding q_def using a s by (rule truediv_small)
  ultimately show ?thesis
    using a(2) s(1) by (simp add: round_money_f64_def bind_def q_def)
qed

lemma round_money_f64_ceil:
  assumes a: "fl a = a" "1 \<le> a" "a \<le> 2 ^ 52" and s: "1 \<le> s" "s \<le> 2 ^ 52"
  shows "round_money_f64 (Fin a) s (lit ''ceil'') = Inr (Fin (of_int (\<lceil>a / of_int s\<rceil> * s)))"
proof -
  define q where "q = a / real_of_int s"
  have sp: "1 \<le> real_of_int s" "real_of_int s \<le> 2 ^ 52"
    using s(1) real_of_int_le_pow2 [OF s(2)] by simp_all
  have q0: "0 < q" using a(2) sp by (simp add: q_def)
  have qs: "q * of_int s = a" using sp by (simp add: q_def)
  have "real_of_int \<lceil>q\<rceil> \<le> q + 1" using ceiling_correct [of q] by simp
  then have "real_of_int \<lceil>q\<rceil> * of_int s \<le> (q + 1) * of_int s"
    using sp by (intro mult_right_mono) simp_all
  also have "\<dots> = a + of_int s" using qs by (simp add: distrib_right)
  also have "\<dots> \<le> 2 ^ 52 + 2 ^ 52" using a(3) sp by simp
  finally have "real_of_int (\<lceil>q\<rceil> * s) \<le> real_of_int (2 ^ 53)" by simp
  then have "\<lceil>q\<rceil> * s \<le> 2 ^ 53" by (simp only: of_int_le_iff)
  moreover have "0 \<le> \<lceil>q\<rceil> * s" using q0 s(1) by (simp add: less_imp_le)
  ultimately have "\<bar>\<lceil>q\<rceil> * s\<bar> \<le> 2 ^ 53" by simp
  then have "float_of_int (\<lceil>q\<rceil> * s) = Inr (Fin (of_int (\<lceil>q\<rceil> * s)))"
    by (rule float_of_int_small)
  moreover have "\<lceil>fl q\<rceil> = \<lceil>q\<rceil>"
    unfolding q_def using a s by (rule fl_quotient_floor_ceiling(2))
  moreover have "py_truediv (VFloat (Fin a)) (VInt s) = Inr (Fin (fl q))"
    unfolding q_def using a s by (rule truediv_small)
  ultimately show ?thesis
    using a(2) s(1) by (simp add: round_money_f64_def bind_def q_def)
qed

lemma round_money_f64_zero:
  "f_le amount 0 \<Longrightarrow> round_money_f64 amount step mode = Inr (Fin 0)"
  by (simp add: round_money_f64_def)

subsection \<open>Rounding and payout\<close>

lemma round_money_step_coerced:
  "step < 1 \<Longrightarrow> round_money amount step mode = round_money amount 1 mode"
  by (simp add: round_money_def)

text \<open>
  C4, as stated, says that with a non-positive \<^verbatim>\<open>money_step\<close> the step applied, and
  reported as \<^verbatim>\<open>rounding_step\<close>, is 1. With \<^verbatim>\<open>money_step = 0\<close> the step is
  \<^verbatim>\<open>rule.money_step or 10\<close>, that is 10: a raw payout of 15 is rounded to 10 (with the step 1
  it would stay 15), and 10 is reported. With \<^verbatim>\<open>money_step = -5\<close> the reported step is -5.
\<close>

theorem payout_step_counterexample:
  "money_step (rule_with_step 0) \<le> 0 \<and>
   rounding_step (calc_unused_leave_payout (rule_with_step 0) 1 0 (wage_of ''daily'' 15 8 22))
     = 10 \<and>
   payout_raw (calc_unused_leave_payout (rule_with_step 0) 1 0 (wage_of ''daily'' 15 8 22))
     = 15 \<and>
   payout_rounded (calc_unused_leave_payout (rule_with_step 0) 1 0 (wage_of ''daily'' 15 8 22))
     = 10 \<and>
   round_money 15 1 (lit ''floor'') = 15 \<and>
   money_step (rule_with_step (-5)) \<le> 0 \<and>
   rounding_step (calc_unused_leave_payout (rule_with_step (-5)) 1 0 (wage_of ''daily'' 15 8 22))
     = -5"
  by (simp add: calc_unused_leave_payout_def rule_with_step_def rule_of_def wage_of_def
      daily_wage_def round_money_def or_int_def or_str_def)

text \<open>
  C4, amended. For every call of \<^verbatim>\<open>calc_unused_leave_payout\<close> with a rule whose
  \<^verbatim>\<open>money_step\<close> is not positive: when \<^verbatim>\<open>money_step\<close> is 0, the payout is rounded with the
  default step 10 and \<^verbatim>\<open>rounding_step\<close> is 10; when \<^verbatim>\<open>money_step\<close> is negative, the payout
  is rounded with the step 1 (by \<^verbatim>\<open>round_money\<close>) and \<^verbatim>\<open>rounding_step\<close> is the negative
  \<^verbatim>\<open>money_step\<close> of the rule, as configured.
\<close>

theorem payout_step_non_positive:
  assumes "money_step rule \<le> 0"
  shows "rounding_step (calc_unused_leave_payout rule granted used wage)
           = (if money_step rule = 0 then 10 else money_step rule)
     \<and> payout_rounded (calc_unused_leave_payout rule granted used wage)
           = round_money (payout_raw (calc_unused_leave_payout rule granted used wage))
               (if money_step rule = 0 then 10 else 1)
               (rounding_mode (calc_unused_leave_payout rule granted used wage))"
  using assms round_money_step_coerced [of "money_step rule"]
  by (simp add: calc_unused_leave_payout_def Let_def or_int_def)

theorem payout_step_non_positive_witness:
  "money_step (rule_with_step (-5)) \<le> 0 \<and>
   rounding_step (calc_unused_leave_payout (rule_with_step (-5)) 1 0 (wage_of ''daily'' 15 8 22))
     = -5 \<and>
   payout_rounded (calc_unused_leave_payout (rule_with_step (-5)) 1 0 (wage_of ''daily'' 15 8 22))
     = 15 \<and>
   money_step (rule_with_step 0) \<le> 0 \<and>
   rounding_step (calc_unused_leave_payout (rule_with_step 0) 1 0 (wage_of ''daily'' 15 8 22))
     = 10 \<and>
   payout_rounded (calc_unused_leave_payout (rule_with_step 0) 1 0 (wage_of ''daily'' 15 8 22))
     = 10"
  using payout_step_non_positive [of "rule_with_step (-5)" 1 0 "wage_of ''daily'' 15 8 22"]
    payout_step_non_positive [of "rule_with_step 0" 1 0 "wage_of ''daily'' 15 8 22"]
  by (simp add: calc_unused_leave_payout_def rule_with_step_def rule_of_def wage_of_def
      daily_wage_def round_money_def or_int_def or_str_def)

lemma round_money_floor_le:
  assumes "0 < step" "0 < amount"
  shows "round_money amount step (lit ''floor'') \<le> amount"
proof -
  have "of_int \<lfloor>amount / of_int step\<rfloor> * of_int step
          \<le> amount / of_int step * (of_int step :: real)"
    using assms by (intro mult_right_mono) auto
  then show ?thesis using assms by (simp add: round_money_def)
qed

lemma round_money_ceil_ge:
  assumes "0 < step" "0 < amount"
  shows "amount \<le> round_money amount step (lit ''ceil'')"
proof -
  have "amount / of_int step * (of_int step :: real)
          \<le> of_int \<lceil>amount / of_int step\<rceil> * of_int step"
    using assms by (intro mult_right_mono) auto
  then show ?thesis using assms by (simp add: round_money_def)
qed

text \<open>
  With the exact quotient the two bounds above hold for every positive amount and step.
  C5 says so of the function itself, whose quotient is a double. There the claim fails:
  the amount 27021597764222980 is a double, its quotient by 3 rounds up to the whole number
  9007199254740994, and the result for \<^verbatim>\<open>"floor"\<close>, 27021597764222984 after the
  conversion to a float, is above the amount.
\<close>

lemmas f64_eval = fl_def quantum_def binade_def pow2_def round_even_def compute_bitlen rnd_def
  float_of_int_def py_truediv_def bind_def fdiv_def Let_def

lemma truediv_large:
  "py_truediv (VFloat (Fin 27021597764222980)) (VInt 3) = Inr (Fin 9007199254740994)"
  by (simp add: f64_eval)

lemma float_of_int_large:
  "float_of_int (9007199254740994 * 3) = Inr (Fin 27021597764222984)"
  by (simp add: f64_eval)

theorem round_money_f64_counterexample:
  "fl 27021597764222980 = 27021597764222980 \<and>
   (0 :: int) < 3 \<and> (0 :: real) < 27021597764222980 \<and>
   round_money_f64 (Fin 27021597764222980) 3 (lit ''floor'') = Inr (Fin 27021597764222984) \<and>
   (27021597764222980 :: real) < 27021597764222984"
proof -
  have "fl 27021597764222980 = 27021597764222980"
    by (simp add: f64_eval)
  moreover have "round_money_f64 (Fin 27021597764222980) 3 (lit ''floor'')
      = Inr (Fin 27021597764222984)"
    using float_of_int_large by (simp add: round_money_f64_def truediv_large bind_def)
  ultimately show ?thesis by simp
qed

text \<open>
  C5, amended. For every step from 1 to \<open>2 ^ 52\<close> and every float amount from 1 to
  \<open>2 ^ 52\<close>, \<^verbatim>\<open>round_money(amount, step, "floor") <= amount <= round_money(amount, step, "ceil")\<close>:
  the two results are exactly the whole multiples of the step below and above the amount.
  And for every step and mode \<^verbatim>\<open>round_money\<close> returns 0 when the amount is zero or negative.
\<close>

theorem round_money_f64_bounds:
  "(fl a = a \<and> 1 \<le> a \<and> a \<le> 2 ^ 52 \<and> 1 \<le> step \<and> step \<le> 2 ^ 52 \<longrightarrow>
      round_money_f64 (Fin a) step (lit ''floor'')
        = Inr (Fin (of_int (\<lfloor>a / of_int step\<rfloor> * step)))
      \<and> round_money_f64 (Fin a) step (lit ''ceil'')
        = Inr (Fin (of_int (\<lceil>a / of_int step\<rceil> * step)))
      \<and> of_int (\<lfloor>a / of_int step\<rfloor> * step) \<le> a
      \<and> a \<le> of_int (\<lceil>a / of_int step\<rceil> * step))
   \<and> (f_le amount 0 \<longrightarrow> round_money_f64 amount step mode = Inr (Fin 0))"
proof (intro conjI impI)
  assume h: "fl a = a \<and> 1 \<le> a \<and> a \<le> 2 ^ 52 \<and> 1 \<le> step \<and> step \<le> 2 ^ 52"
  then show "round_money_f64 (Fin a) step (lit ''floor'')
        = Inr (Fin (of_int (\<lfloor>a / of_int step\<rfloor> * step)))"
    by (intro round_money_f64_floor) simp_all
  from h show "round_money_f64 (Fin a) step (lit ''ceil'')
        = Inr (Fin (of_int (\<lceil>a / of_int step\<rceil> * step)))"
    by (intro round_money_f64_ceil) simp_all
  from h have sp: "0 < real_of_int step" by simp
  have "real_of_int \<lfloor>a / of_int step\<rfloor> * of_int step \<le> a / of_int step * of_int step"
    using sp by (intro mult_right_mono) simp_all
  then show "real_of_int (\<lfloor>a / of_int step\<rfloor> * step) \<le> a" using sp by simp
  have "a / of_int step * of_int step \<le> real_of_int \<lceil>a / of_int step\<rceil> * of_int step"
    using sp by (intro mult_right_mono) simp_all
  then show "a \<le> real_of_int (\<lceil>a / of_int step\<rceil> * step)" using sp by simp
next
  assume "f_le amount 0"
  then show "round_money_f64 amount step mode = Inr (Fin 0)"
    by (rule round_money_f64_zero)
qed


theorem round_money_f64_bounds_witness:
  "fl 454545.5 = 454545.5 \<and>
   round_money_f64 (Fin 454545.5) 10 (lit ''floor'') = Inr (Fin 454540) \<and>
   round_money_f64 (Fin 454545.5) 10 (lit ''ceil'') = Inr (Fin 454550) \<and>
   (454540 :: real) \<le> 454545.5 \<and> (454545.5 :: real) \<le> 454550 \<and>
   round_money_f64 (Fin (- 3)) 10 (lit ''round'') = Inr (Fin 0)"
proof -
  have "fl 454545.5 = 454545.5"
    by (simp add: f64_eval)
  then show ?thesis
    using round_money_f64_bounds [of "454545.5" 10 "Fin (- 3)" "lit ''round''"] by simp
qed

subsection \<open>The pipeline\<close>

lemma map_of_rule_map_law_basic:
  "map_of rule_map (lit ''law_basic'')
     = Some (new_rule (lit ''law_basic'') [48277, 51221, 32, 44592, 48376, 54805]
         (lit ''law_basic''))"
  by (simp add: rule_map_def)

text \<open>
  C9. \<^verbatim>\<open>full_pipeline\<close> with \<^verbatim>\<open>rule_id = "law_basic"\<close>, the service fields
  \<^verbatim>\<open>full_years = 1\<close>, \<^verbatim>\<open>full_months = 12\<close>, \<^verbatim>\<open>attendance_rate = 85\<close>, the wage fields
  \<^verbatim>\<open>wage_type = "monthly"\<close>, \<^verbatim>\<open>wage_amount = 2000000\<close>, \<^verbatim>\<open>monthly_work_days = 22\<close>, 15 granted
  and 10 used days returns the daily wage 2000000/22 (within 0.01 of 90909.09), 5 unused
  days, the raw payout 5 * 2000000/22 (within 0.01 of 454545.45) and the rounded payout
  454540, under the step 10 and the mode \<^verbatim>\<open>"floor"\<close>.
\<close>

theorem full_pipeline_example:
  "res_daily_wage (full_pipeline (lit ''law_basic'') sample_service sample_wage 15 10)
     = 2000000 / 22 \<and>
   \<bar>res_daily_wage (full_pipeline (lit ''law_basic'') sample_service sample_wage 15 10)
      - 90909.09\<bar> < 0.01 \<and>
   unused_days (res_payout (full_pipeline (lit ''law_basic'') sample_service sample_wage 15 10))
     = 5 \<and>
   payout_raw (res_payout (full_pipeline (lit ''law_basic'') sample_service sample_wage 15 10))
     = 5 * (2000000 / 22) \<and>
   \<bar>payout_raw (res_payout (full_pipeline (lit ''law_basic'') sample_service sample_wage 15 10))
      - 454545.45\<bar> < 0.01 \<and>
   payout_rounded
       (res_payout (full_pipeline (lit ''law_basic'') sample_service sample_wage 15 10))
     = 454540 \<and>
   rounding_step (res_payout (full_pipeline (lit ''law_basic'') sample_service sample_wage 15 10))
     = 10 \<and>
   rounding_mode (res_payout (full_pipeline (lit ''law_basic'') sample_service sample_wage 15 10))
     = lit ''floor''"
  by (simp add: full_pipeline_def map_of_rule_map_law_basic get_def new_rule_def
      sample_service_def sample_wage_def float_of_def calc_unused_leave_payout_def
      daily_wage_def round_money_def or_int_def or_str_def Let_def)

text \<open>
  The rounded payout of this example does not depend on the last digits of the raw payout:
  every raw payout within 1 of \<open>5 * 2000000 / 22\<close> is rounded down to 454540.
\<close>

lemma rounded_payout_stable:
  assumes "\<bar>raw - 5 * (2000000 / 22)\<bar> < 1"
  shows "round_money raw 10 (lit ''floor'') = 454540"
proof -
  have "45454 \<le> raw / 10" "raw / 10 < 45455" "0 < raw"
    using assms by (simp_all add: abs_less_iff)
  then have "\<lfloor>raw / 10\<rfloor> = 45454"
    by (simp add: floor_eq_iff)
  then show ?thesis using \<open>0 < raw\<close> by (simp add: round_money_def)
qed

end
